theory Spec2Isabelle
  imports Complex_Main "HOL-Library.DAList"
begin

section \<open>Python values, exceptions and dictionaries\<close>

text \<open>
  The agent (\<^verbatim>\<open>nsxv3_agent.py\<close>) works on dynamically typed values. The values that
  reach the modelled functions are \<^verbatim>\<open>None\<close>, strings, integers (Python's \<^verbatim>\<open>bool\<close> is a
  subclass of \<^verbatim>\<open>int\<close>: \<^verbatim>\<open>False == 0\<close>, \<^verbatim>\<open>True == 1\<close>), lists and string-keyed dictionaries.
\<close>

datatype pyval =
    PNone
  | PStr string
  | PInt int
  | PList "pyval list"
  | PDict "(string \<times> pyval) list"

text \<open>Truthiness, as \<^verbatim>\<open>if x:\<close>, \<^verbatim>\<open>x and y\<close> and \<^verbatim>\<open>not x\<close> test it.\<close>

fun truthy :: "pyval \<Rightarrow> bool" where
  "truthy PNone = False"
| "truthy (PStr s) = (s \<noteq> [])"
| "truthy (PInt i) = (i \<noteq> 0)"
| "truthy (PList xs) = (xs \<noteq> [])"
| "truthy (PDict d) = (d \<noteq> [])"

text \<open>
  What can be raised. \<open>StoreError\<close> stands for whatever error a collaborator (the
  source-store RPC client, the target-store facade, a library) raises. The last four
  derive from \<^verbatim>\<open>BaseException\<close> and not from \<^verbatim>\<open>Exception\<close>: the interpreter's
  \<^verbatim>\<open>KeyboardInterrupt\<close> and \<^verbatim>\<open>SystemExit\<close>, and \<^verbatim>\<open>GreenletExit\<close> and \<^verbatim>\<open>Timeout\<close> of
  eventlet, which the module imports and patches in.
\<close>

datatype exn =
    KeyError string
  | IndexError
  | AttributeError
  | TypeError
  | StoreError string
  | KeyboardInterrupt
  | SystemExit
  | GreenletExit
  | Timeout

text \<open>What an \<^verbatim>\<open>except Exception\<close> clause catches.\<close>

fun is_Exception :: "exn \<Rightarrow> bool" where
  "is_Exception KeyboardInterrupt = False"
| "is_Exception SystemExit = False"
| "is_Exception GreenletExit = False"
| "is_Exception Timeout = False"
| "is_Exception e = True"

text \<open>
  Lists and dictionaries are unhashable: used as a dictionary key or a set element
  (\<^verbatim>\<open>k in d\<close>, \<^verbatim>\<open>d.get(k)\<close>, \<^verbatim>\<open>s.add(k)\<close>) they raise \<^verbatim>\<open>TypeError\<close>.
\<close>

fun hashable :: "pyval \<Rightarrow> bool" where
  "hashable (PList xs) = False"
| "hashable (PDict d) = False"
| "hashable v = True"

text \<open>
  A Python \<^verbatim>\<open>dict\<close> is an insertion-ordered association list with distinct keys:
  \<^verbatim>\<open>d.get(k)\<close> is \<open>DAList.lookup d k\<close>, \<^verbatim>\<open>d[k] = v\<close> is \<open>DAList.update k v d\<close>,
  \<^verbatim>\<open>del d[k]\<close> is \<open>DAList.delete k d\<close>, \<^verbatim>\<open>{}\<close> is \<open>DAList.empty\<close>.
\<close>

definition items :: "('k, 'v) alist \<Rightarrow> ('k \<times> 'v) list" where
  "items d = DAList.impl_of d"

definition keys :: "('k, 'v) alist \<Rightarrow> 'k list" where
  "keys d = map fst (DAList.impl_of d)"

definition values_of :: "('k, 'v) alist \<Rightarrow> 'v list" where
  "values_of d = map snd (DAList.impl_of d)"

text \<open>\<^verbatim>\<open>k in d\<close>\<close>

definition contains :: "('k, 'v) alist \<Rightarrow> 'k \<Rightarrow> bool" where
  "contains d k = (DAList.lookup d k \<noteq> None)"

text \<open>\<^verbatim>\<open>d[k]\<close>: a missing key raises \<^verbatim>\<open>KeyError\<close>.\<close>

definition getitem :: "(string, 'v) alist \<Rightarrow> string \<Rightarrow> exn + 'v" where
  "getitem d k = (case DAList.lookup d k of None \<Rightarrow> Inl (KeyError k) | Some v \<Rightarrow> Inr v)"

text \<open>\<^verbatim>\<open>d.get(k)\<close> on a dictionary of Python values: a missing key gives \<^verbatim>\<open>None\<close>.\<close>

definition get_or_none :: "(string, pyval) alist \<Rightarrow> string \<Rightarrow> pyval" where
  "get_or_none d k = (case DAList.lookup d k of None \<Rightarrow> PNone | Some v \<Rightarrow> v)"

text \<open>\<^verbatim>\<open>str(n)\<close> for an integer: its decimal numeral.\<close>

fun str_nat :: "nat \<Rightarrow> string" where
  "str_nat n = (if n < 10 then [''0123456789'' ! n]
                else str_nat (n div 10) @ [''0123456789'' ! (n mod 10)])"

definition str_int :: "int \<Rightarrow> string" where
  "str_int i = (if i < 0 then CHR ''-'' # str_nat (nat (- i)) else str_nat (nat i))"

section \<open>Configuration and the source-store query interface\<close>

text \<open>The options of \<^verbatim>\<open>cfg.CONF\<close> that the modelled functions read.\<close>

record config =
  rpc_max_records_per_query :: int
  polling_interval :: real
  sync_full_schedule :: int
  host :: pyval

text \<open>
  A \<^verbatim>\<open>datetime\<close> is a number of seconds relative to \<^verbatim>\<open>datetime.datetime(1970, 1, 1)\<close>.
  A source-store revision query takes \<^verbatim>\<open>limit\<close> and \<^verbatim>\<open>created_after\<close> and returns a page of
  \<^verbatim>\<open>(key, revision, created_at)\<close> tuples, or raises.
\<close>

type_synonym datetime = int

definition epoch :: datetime where
  "epoch = 0"

type_synonym 'k revision_tuple = "'k \<times> int \<times> datetime"

type_synonym 'k query = "int \<Rightarrow> datetime \<Rightarrow> exn + 'k revision_tuple list"

section \<open>Cursor-based revision retrieval: \<^verbatim>\<open>get_revisions\<close>\<close>

text \<open>
  The inner \<^verbatim>\<open>for port, revision, _ in pr_tuples: rev[port] = str(revision)\<close>.
\<close>

definition record_page :: "'k revision_tuple list \<Rightarrow> ('k, string) alist \<Rightarrow> ('k, string) alist" where
  "record_page pr_tuples revs =
     fold (\<lambda>(port, revision, _) revs. DAList.update port (str_int revision) revs) pr_tuples revs"

text \<open>
  The \<^verbatim>\<open>while True\<close> loop. It need not terminate, so the result is an option: \<open>None\<close> is
  a run that never returns. \<^verbatim>\<open>pr_tuples.pop()\<close> on an empty page raises \<^verbatim>\<open>IndexError\<close>.
\<close>

partial_function (option) get_revisions_loop ::
  "'k query \<Rightarrow> int \<Rightarrow> ('k, string) alist \<Rightarrow> datetime \<Rightarrow> (exn + ('k, string) alist) option"
where
  "get_revisions_loop query limit revs created_after =
     (case query limit created_after of
        Inl e \<Rightarrow> Some (Inl e)
      | Inr pr_tuples \<Rightarrow>
          (let revs' = record_page pr_tuples revs in
           if int (length pr_tuples) < limit then Some (Inr revs')
           else if pr_tuples = [] then Some (Inl IndexError)
           else get_revisions_loop query limit revs' (snd (snd (last pr_tuples)))))"

definition get_revisions :: "config \<Rightarrow> 'k query \<Rightarrow> (exn + ('k, string) alist) option" where
  "get_revisions cfg query =
     get_revisions_loop query (rpc_max_records_per_query cfg) DAList.empty epoch"

section \<open>Collaborators and agent state\<close>

text \<open>
  The classes of the target-store SDK that \<^verbatim>\<open>self.nsxv3.get_revisions\<close> is asked about, and
  an SDK object as far as the agent reads it (its \<^verbatim>\<open>id\<close> attribute).
\<close>

datatype sdk_model = IPSet | FirewallRule | LogicalPort | QosSwitchingProfile

record sdk_object =
  obj_id :: pyval

text \<open>
  The target-store facade \<^verbatim>\<open>self.nsxv3\<close> (\<^verbatim>\<open>nsxv3_facada.NSXv3Facada\<close>, not part of the
  modelled file) is a parameter: a record of its methods over an abstract target store
  \<open>'nsx\<close>. \<open>nsx_get_revisions\<close> takes the SDK class and the optional
  \<^verbatim>\<open>attr_key\<close>/\<^verbatim>\<open>attr_val\<close> filter and returns the triple of dictionaries (revisions,
  identifiers, metadata) that the agent unpacks; it only reads the store. The other
  methods return their result and the store they leave behind.
\<close>

type_synonym 'k nsx_revisions =
  "('k, string) alist \<times> ('k, pyval) alist \<times> ('k, (string, pyval) alist) alist"

record ('nsx, 'k, 'spec) nsxv3_facada =
  nsx_get_revisions :: "sdk_model \<Rightarrow> (string \<times> pyval) option \<Rightarrow> 'nsx \<Rightarrow> exn + 'k nsx_revisions"
  get_or_create_security_group ::
    "string \<Rightarrow> 'nsx \<Rightarrow> (exn + sdk_object \<times> sdk_object \<times> sdk_object) \<times> 'nsx"
  get_security_group_rule_spec :: "(string, pyval) alist \<Rightarrow> exn + 'spec option"
  update_security_group_rules ::
    "string \<Rightarrow> pyval \<Rightarrow> 'spec list \<Rightarrow> pyval list \<Rightarrow> 'nsx \<Rightarrow> (exn + unit) \<times> 'nsx"
  nsx_port_update ::
    "pyval \<Rightarrow> pyval \<Rightarrow> pyval \<Rightarrow> (pyval \<times> pyval) list \<Rightarrow> pyval \<Rightarrow> 'nsx \<Rightarrow> (exn + unit) \<times> 'nsx"
  update_security_group_capabilities :: "string \<Rightarrow> pyval list \<Rightarrow> 'nsx \<Rightarrow> (exn + unit) \<times> 'nsx"
  update_security_group_members :: "string \<Rightarrow> string list \<Rightarrow> 'nsx \<Rightarrow> (exn + unit) \<times> 'nsx"
  create_switch_profile_qos :: "pyval \<Rightarrow> pyval \<Rightarrow> 'nsx \<Rightarrow> (exn + unit) \<times> 'nsx"
  update_switch_profile_qos ::
    "pyval \<Rightarrow> pyval \<Rightarrow> pyval \<Rightarrow> pyval \<Rightarrow> 'nsx \<Rightarrow> (exn + unit) \<times> 'nsx"

text \<open>
  The source-store client \<^verbatim>\<open>self.rpc\<close>, likewise a parameter. It only reads. The rows it
  returns are tuples: a port is the eight columns that \<^verbatim>\<open>sync_port\<close> unpacks, a member
  address is a row of which only the first column is read.
\<close>

type_synonym port_row = "pyval \<times> pyval \<times> pyval \<times> pyval \<times> pyval \<times> pyval \<times> pyval \<times> pyval"

record 'k rpc_api =
  get_security_group_revision_tuples :: "'k query"
  get_qos_policy_revision_tuples :: "'k query"
  get_port_revision_tuples :: "'k query"
  get_rules_for_security_groups_id :: "string \<Rightarrow> exn + (string, pyval) alist list"
  get_security_group_revision :: "string \<Rightarrow> exn + string \<times> pyval"
  has_security_group_tag :: "string \<Rightarrow> pyval \<Rightarrow> exn + pyval"
  get_security_group_members_ips :: "string \<Rightarrow> exn + string list list"
  get_security_group_members_address_bindings_ips :: "string \<Rightarrow> exn + string list list"
  get_qos :: "pyval \<Rightarrow> exn + pyval \<times> pyval"
  get_qos_bwl_rules :: "pyval \<Rightarrow> exn + (pyval \<times> pyval \<times> pyval) list"
  get_qos_dscp_rules :: "pyval \<Rightarrow> exn + (pyval \<times> pyval) list"
  get_port :: "pyval \<Rightarrow> exn + port_row"
  get_port_addresses :: "pyval \<Rightarrow> exn + (pyval \<times> pyval) list"
  get_port_allowed_pairs :: "pyval \<Rightarrow> exn + (pyval \<times> pyval) list"
  get_port_security_groups :: "pyval \<Rightarrow> exn + pyval list"

text \<open>
  What the handlers take from outside the modelled file, as parameters: the constant
  \<^verbatim>\<open>nsxv3_constants.NSXV3_CAPABILITY_TCP_STRICT\<close>, \<^verbatim>\<open>netaddr.IPSet(addresses).iter_cidrs()\<close>
  with each CIDR rendered by \<^verbatim>\<open>str\<close>, and \<^verbatim>\<open>json.loads\<close>.
\<close>

record library =
  NSXV3_CAPABILITY_TCP_STRICT :: pyval
  iter_cidrs :: "string list \<Rightarrow> exn + string list"
  json_loads :: "pyval \<Rightarrow> exn + pyval"

text \<open>
  Modelled from the spec: \<^verbatim>\<open>sync.Priority\<close> (module
  \<^verbatim>\<open>networking_nsxv3.common.synchronization\<close>, absent from the sources), which the spec
  calls named constants with an implicit ordering.
\<close>

datatype priority = HIGHEST | HIGHER | HIGH | MEDIUM | LOW | LOWER | LOWEST

text \<open>
  Modelled from the spec: the total order of \<^verbatim>\<open>sync.Priority\<close>, made explicit as the names
  declare it; rank \<open>0\<close> is served first.
\<close>

fun rank :: "priority \<Rightarrow> nat" where
  "rank HIGHEST = 0"
| "rank HIGHER = 1"
| "rank HIGH = 2"
| "rank MEDIUM = 3"
| "rank LOW = 4"
| "rank LOWER = 5"
| "rank LOWEST = 6"

text \<open>
  Modelled from the spec: \<open>p\<close> is a strictly lower priority than \<open>q\<close>.
\<close>

definition lower_priority :: "priority \<Rightarrow> priority \<Rightarrow> bool" where
  "lower_priority p q = (rank q < rank p)"

text \<open>The bound methods of the callback class that are handed to the runner.\<close>

datatype handler =
    Security_group_updated
  | Security_group_member_updated
  | Security_group_rule_updated
  | Sync_security_group
  | Sync_security_group_orphaned
  | Sync_qos
  | Sync_qos_orphaned
  | Sync_port
  | Sync_port_orphaned

type_synonym 'k batch = "priority \<times> 'k set \<times> handler"

datatype lock_event = Acquire pyval | Release pyval

text \<open>
  The state of the callback object: the target store behind \<^verbatim>\<open>self.nsxv3\<close>, the
  \<^verbatim>\<open>last_full_synchronization\<close> marker kept in that store, the backlog of
  \<^verbatim>\<open>self.runner\<close>, the history of \<^verbatim>\<open>LockManager\<close> scopes, and \<^verbatim>\<open>self.updated_devices\<close>.
  Logging is not modelled.
\<close>

record ('nsx, 'k) agent =
  nsx :: 'nsx
  marker :: "datetime option"
  runner :: "'k batch list"
  lock_log :: "lock_event list"
  updated_devices :: "pyval set"

text \<open>
  Modelled from the spec: \<^verbatim>\<open>sync.Runner.run\<close> (absent from the sources).
  \<^verbatim>\<open>run(priority, items, handler)\<close> enqueues one work unit per item, tagged with the
  priority, and returns immediately.
\<close>

definition run :: "priority \<Rightarrow> 'k set \<Rightarrow> handler \<Rightarrow> ('nsx, 'k) agent \<Rightarrow> ('nsx, 'k) agent" where
  "run p its h s = s\<lparr>runner := runner s @ [(p, its, h)]\<rparr>"

text \<open>
  Modelled from the spec: \<^verbatim>\<open>sync.Runner.passive\<close> (absent from the sources) counts the work
  units queued but not yet started.
\<close>

definition runner_passive :: "('nsx, 'k) agent \<Rightarrow> nat" where
  "runner_passive s = sum_list (map (\<lambda>(p, its, h). card its) (runner s))"

text \<open>
  Modelled from the spec: entering the scope of \<^verbatim>\<open>LockManager.get_lock(key)\<close> (absent from
  the sources) acquires the lock of that key.
\<close>

definition acquire :: "pyval \<Rightarrow> ('nsx, 'k) agent \<Rightarrow> ('nsx, 'k) agent" where
  "acquire key s = s\<lparr>lock_log := lock_log s @ [Acquire key]\<rparr>"

text \<open>
  Modelled from the spec: leaving the scope of \<^verbatim>\<open>LockManager.get_lock(key)\<close> releases the
  lock.
\<close>

definition release :: "pyval \<Rightarrow> ('nsx, 'k) agent \<Rightarrow> ('nsx, 'k) agent" where
  "release key s = s\<lparr>lock_log := lock_log s @ [Release key]\<rparr>"

text \<open>
  Modelled from the spec: the block \<^verbatim>\<open>with LockManager.get_lock(key): body\<close>. The handle is
  released when the scope ends, on every exit path, also when the body raises.
\<close>

definition with_lock ::
  "pyval \<Rightarrow> (('nsx, 'k) agent \<Rightarrow> 'r \<times> ('nsx, 'k) agent) \<Rightarrow> ('nsx, 'k) agent \<Rightarrow> 'r \<times> ('nsx, 'k) agent"
where
  "with_lock key body s = (case body (acquire key s) of (r, s') \<Rightarrow> (r, release key s'))"

text \<open>
  Modelled from the spec: \<^verbatim>\<open>has_expired\<close> of \<^verbatim>\<open>nsxv3_facada.Timestamp\<close> (absent from the
  sources). The marker is expired when no timestamp was ever written or when at least the
  time-to-live has passed since the last one.
\<close>

definition has_expired :: "datetime \<Rightarrow> int \<Rightarrow> datetime option \<Rightarrow> bool" where
  "has_expired now ttl m = (case m of None \<Rightarrow> True | Some t \<Rightarrow> ttl \<le> now - t)"

text \<open>
  Modelled from the spec: \<^verbatim>\<open>update\<close> of \<^verbatim>\<open>nsxv3_facada.Timestamp\<close> writes the current time
  to the marker.
\<close>

definition timestamp_update :: "datetime \<Rightarrow> ('nsx, 'k) agent \<Rightarrow> ('nsx, 'k) agent" where
  "timestamp_update now s = s\<lparr>marker := Some now\<rparr>"

text \<open>
  Sequencing. \<open>or_raise\<close> runs a call that cannot loop; \<open>or_diverge\<close> one that can. In
  both an exception leaves the function at once, with the state reached so far.
\<close>

definition or_raise :: "exn + 'a \<Rightarrow> 's \<Rightarrow> ('a \<Rightarrow> (exn + 'b) \<times> 's) \<Rightarrow> (exn + 'b) \<times> 's" where
  "or_raise m s f = (case m of Inl e \<Rightarrow> (Inl e, s) | Inr x \<Rightarrow> f x)"

definition or_diverge ::
  "(exn + 'a) option \<Rightarrow> 's \<Rightarrow> ('a \<Rightarrow> ((exn + 'b) \<times> 's) option) \<Rightarrow> ((exn + 'b) \<times> 's) option"
where
  "or_diverge m s f =
     (case m of None \<Rightarrow> None | Some (Inl e) \<Rightarrow> Some (Inl e, s) | Some (Inr x) \<Rightarrow> f x)"

section \<open>Revision diff: \<^verbatim>\<open>_sync_get_content\<close>\<close>

text \<open>
  The loop \<^verbatim>\<open>for key, rev in revs_os.items(): if revs_nsx.get(key) != rev: outdated.add(key)\<close>,
  starting from \<^verbatim>\<open>outdated = set()\<close>.
\<close>

definition collect_outdated :: "('k, string) alist \<Rightarrow> ('k, string) alist \<Rightarrow> 'k set" where
  "collect_outdated revs_os revs_nsx =
     fold (\<lambda>(key, r) outdated.
             if DAList.lookup revs_nsx key \<noteq> Some r then insert key outdated else outdated)
          (items revs_os) {}"

definition sync_get_content ::
  "config \<Rightarrow> ('nsx, 'k, 'spec) nsxv3_facada \<Rightarrow> sdk_model \<Rightarrow> 'k query \<Rightarrow> 'nsx
     \<Rightarrow> (exn + 'k set \<times> 'k set) option"
where
  "sync_get_content cfg nsxv3 model os_query store =
     (case get_revisions cfg os_query of
        None \<Rightarrow> None
      | Some (Inl e) \<Rightarrow> Some (Inl e)
      | Some (Inr revs_os) \<Rightarrow>
          (case nsx_get_revisions nsxv3 model None store of
             Inl e \<Rightarrow> Some (Inl e)
           | Inr (revs_nsx, _, _) \<Rightarrow>
               (let outdated = collect_outdated revs_os revs_nsx;
                    orphaned = set (keys revs_nsx) - set (keys revs_os)
                in Some (Inr (outdated, orphaned)))))"

section \<open>Inventory synchronisation\<close>

definition sync_inventory_full ::
  "config \<Rightarrow> 'k rpc_api \<Rightarrow> ('nsx, 'k) agent \<Rightarrow> ((exn + unit) \<times> ('nsx, 'k) agent) option"
where
  "sync_inventory_full cfg rpc s =
     or_diverge (get_revisions cfg (get_security_group_revision_tuples rpc)) s (\<lambda>sg_revs.
       let s1 = run HIGHER (set (keys sg_revs)) Sync_security_group s in
       or_diverge (get_revisions cfg (get_qos_policy_revision_tuples rpc)) s1 (\<lambda>qos_revs.
         let s2 = run HIGH (set (keys qos_revs)) Sync_qos s1 in
         or_diverge (get_revisions cfg (get_port_revision_tuples rpc)) s2 (\<lambda>port_revs.
           Some (Inr (), run MEDIUM (set (keys port_revs)) Sync_port s2))))"

definition sync_inventory_shallow ::
  "config \<Rightarrow> 'k rpc_api \<Rightarrow> ('nsx, 'k, 'spec) nsxv3_facada \<Rightarrow> ('nsx, 'k) agent
     \<Rightarrow> ((exn + unit) \<times> ('nsx, 'k) agent) option"
where
  "sync_inventory_shallow cfg rpc nsxv3 s =
     (let sg_query = get_security_group_revision_tuples rpc;
          qos_query = get_qos_policy_revision_tuples rpc;
          port_query = get_port_revision_tuples rpc
      in
      or_diverge (sync_get_content cfg nsxv3 IPSet sg_query (nsx s)) s
        (\<lambda>(outdated_ips, orphaned_ips).
           let s1 = run HIGHER outdated_ips Security_group_updated s;
               s2 = run HIGH outdated_ips Security_group_member_updated s1;
               s3 = run MEDIUM outdated_ips Security_group_rule_updated s2;
               s4 = run LOW orphaned_ips Sync_security_group_orphaned s3
           in
           or_diverge (sync_get_content cfg nsxv3 QosSwitchingProfile qos_query (nsx s4)) s4
             (\<lambda>(outdated_qos, orphaned_qos).
                let s5 = run LOWER outdated_qos Sync_qos s4 in
                or_diverge (sync_get_content cfg nsxv3 LogicalPort port_query (nsx s5)) s5
                  (\<lambda>(outdated_lps, orphaned_lps).
                     let s6 = run LOW outdated_lps Sync_port s5;
                         s7 = run LOW orphaned_lps Sync_port_orphaned s6
                     in Some (Inr (), s7)))))"

definition AGENT_SYNCHRONIZATION_LOCK :: pyval where
  "AGENT_SYNCHRONIZATION_LOCK = PStr ''AGENT_SYNCHRONIZATION_LOCK''"

text \<open>
  The body of the \<^verbatim>\<open>with LockManager.get_lock(AGENT_SYNCHRONIZATION_LOCK)\<close> block; \<open>now\<close>
  is the clock that the timestamp reads. A pass that never returns keeps the lock.
\<close>

definition sync_inventory_locked ::
  "config \<Rightarrow> 'k rpc_api \<Rightarrow> ('nsx, 'k, 'spec) nsxv3_facada \<Rightarrow> datetime \<Rightarrow> ('nsx, 'k) agent
     \<Rightarrow> ((exn + unit) \<times> ('nsx, 'k) agent) option"
where
  "sync_inventory_locked cfg rpc nsxv3 now s =
     (if runner_passive s > 0 then Some (Inr (), s)
      else if has_expired now (sync_full_schedule cfg) (marker s) then
        (case sync_inventory_full cfg rpc s of
           None \<Rightarrow> None
         | Some (Inl e, s') \<Rightarrow> Some (Inl e, s')
         | Some (Inr _, s') \<Rightarrow> Some (Inr (), timestamp_update now s'))
      else sync_inventory_shallow cfg rpc nsxv3 s)"

definition sync_inventory ::
  "config \<Rightarrow> 'k rpc_api \<Rightarrow> ('nsx, 'k, 'spec) nsxv3_facada \<Rightarrow> datetime \<Rightarrow> ('nsx, 'k) agent
     \<Rightarrow> ((exn + unit) \<times> ('nsx, 'k) agent) option"
where
  "sync_inventory cfg rpc nsxv3 now s =
     (case sync_inventory_locked cfg rpc nsxv3 now (acquire AGENT_SYNCHRONIZATION_LOCK s) of
        None \<Rightarrow> None
      | Some (r, s') \<Rightarrow> Some (r, release AGENT_SYNCHRONIZATION_LOCK s'))"

section \<open>Security-group rule reconciliation: \<^verbatim>\<open>security_group_rule_updated\<close>\<close>

definition attrs :: "string list" where
  "attrs = [''id'', ''port_range_min'', ''port_range_max'', ''protocol'', ''ethertype'',
            ''direction'', ''remote_group_id'', ''remote_ip_prefix'', ''security_group_id'']"

text \<open>\<^verbatim>\<open>for key in attrs: fwr[key] = rule[key]\<close>\<close>

fun copy_attrs ::
  "(string, pyval) alist \<Rightarrow> string list \<Rightarrow> (string, pyval) alist \<Rightarrow> exn + (string, pyval) alist"
where
  "copy_attrs rule [] fwr = Inr fwr"
| "copy_attrs rule (key # ks) fwr =
     (case getitem rule key of
        Inl e \<Rightarrow> Inl e
      | Inr v \<Rightarrow> copy_attrs rule ks (DAList.update key v fwr))"

text \<open>
  The first part of the loop body: the rule's name and the dictionary \<^verbatim>\<open>fwr\<close> that is
  later handed to \<^verbatim>\<open>get_security_group_rule_spec\<close>.
\<close>

definition project_rule ::
  "sdk_object \<Rightarrow> sdk_object \<Rightarrow> (pyval, pyval) alist \<Rightarrow> (string, pyval) alist
     \<Rightarrow> exn + pyval \<times> (string, pyval) alist"
where
  "project_rule ipset nsg revs_ips rule =
     (case getitem rule ''id'' of
        Inl e \<Rightarrow> Inl e
      | Inr name \<Rightarrow>
     (case getitem rule ''remote_group_id'' of
        Inl e \<Rightarrow> Inl e
      | Inr remote_group_id \<Rightarrow>
     (case copy_attrs rule attrs DAList.empty of
        Inl e \<Rightarrow> Inl e
      | Inr fwr0 \<Rightarrow>
          (let fwr1 = DAList.update ''local_group_id'' (obj_id ipset) fwr0;
               fwr2 = DAList.update ''apply_to'' (obj_id nsg) fwr1
           in
           if \<not> hashable remote_group_id then Inl TypeError
           else
             (let fwr3 = (case DAList.lookup revs_ips remote_group_id of
                            Some ref \<Rightarrow> DAList.update ''remote_group_id'' ref fwr2
                          | None \<Rightarrow> fwr2)
              in Inr (name, fwr3))))))"

text \<open>
  \<^verbatim>\<open>if name in revs_fwr: if not meta_fwr.get(name).get("FirewallRule.disabled"): ...\<close>:
  whether the rule is taken as already correct. An unhashable name raises \<^verbatim>\<open>TypeError\<close>;
  \<^verbatim>\<open>meta_fwr.get(name)\<close> is \<^verbatim>\<open>None\<close> for a name without metadata, and \<^verbatim>\<open>None.get\<close> raises
  \<^verbatim>\<open>AttributeError\<close>.
\<close>

definition already_correct ::
  "(pyval, (string, pyval) alist) alist \<Rightarrow> (pyval, pyval) alist \<Rightarrow> pyval \<Rightarrow> exn + bool"
where
  "already_correct meta_fwr revs_fwr name =
     (if \<not> hashable name then Inl TypeError
      else if contains revs_fwr name then
        (case DAList.lookup meta_fwr name of
           None \<Rightarrow> Inl AttributeError
         | Some m \<Rightarrow> Inr (\<not> truthy (get_or_none m ''FirewallRule.disabled'')))
      else Inr False)"

text \<open>
  The loop \<^verbatim>\<open>for rule in neutron_rules\<close> over the pair of \<^verbatim>\<open>add_rules\<close> and \<^verbatim>\<open>revs_fwr\<close>.
\<close>

fun add_rules_loop ::
  "('nsx, 'k, 'spec) nsxv3_facada \<Rightarrow> sdk_object \<Rightarrow> sdk_object \<Rightarrow> (pyval, pyval) alist
     \<Rightarrow> (pyval, (string, pyval) alist) alist \<Rightarrow> (string, pyval) alist list
     \<Rightarrow> 'spec list \<times> (pyval, pyval) alist \<Rightarrow> exn + 'spec list \<times> (pyval, pyval) alist"
where
  "add_rules_loop nsxv3 ipset nsg revs_ips meta_fwr [] (add_rules, revs_fwr) =
     Inr (add_rules, revs_fwr)"
| "add_rules_loop nsxv3 ipset nsg revs_ips meta_fwr (rule # rest) (add_rules, revs_fwr) =
     (case project_rule ipset nsg revs_ips rule of
        Inl e \<Rightarrow> Inl e
      | Inr (name, fwr) \<Rightarrow>
     (case already_correct meta_fwr revs_fwr name of
        Inl e \<Rightarrow> Inl e
      | Inr True \<Rightarrow>
          add_rules_loop nsxv3 ipset nsg revs_ips meta_fwr rest
            (add_rules, DAList.delete name revs_fwr)
      | Inr False \<Rightarrow>
     (case get_security_group_rule_spec nsxv3 fwr of
        Inl e \<Rightarrow> Inl e
      | Inr None \<Rightarrow>
          add_rules_loop nsxv3 ipset nsg revs_ips meta_fwr rest (add_rules, revs_fwr)
      | Inr (Some fwr_spec) \<Rightarrow>
          add_rules_loop nsxv3 ipset nsg revs_ips meta_fwr rest
            (add_rules @ [fwr_spec], revs_fwr))))"

text \<open>
  Lines 110 to 133: the lists \<^verbatim>\<open>add_rules\<close> and \<^verbatim>\<open>del_rules = revs_fwr.values()\<close> that are
  passed to \<^verbatim>\<open>update_security_group_rules\<close>.
\<close>

definition rule_lists ::
  "('nsx, 'k, 'spec) nsxv3_facada \<Rightarrow> sdk_object \<Rightarrow> sdk_object \<Rightarrow> (pyval, pyval) alist
     \<Rightarrow> (pyval, pyval) alist \<Rightarrow> (pyval, (string, pyval) alist) alist
     \<Rightarrow> (string, pyval) alist list \<Rightarrow> exn + 'spec list \<times> pyval list"
where
  "rule_lists nsxv3 ipset nsg revs_ips revs_fwr meta_fwr neutron_rules =
     (case add_rules_loop nsxv3 ipset nsg revs_ips meta_fwr neutron_rules ([], revs_fwr) of
        Inl e \<Rightarrow> Inl e
      | Inr (add_rules, revs_fwr') \<Rightarrow> Inr (add_rules, values_of revs_fwr'))"

text \<open>
  The whole handler. \<^verbatim>\<open>security_group_id\<close> is a string, so \<^verbatim>\<open>str\<close> returns it unchanged.
\<close>

definition security_group_rule_updated ::
  "pyval rpc_api \<Rightarrow> ('nsx, pyval, 'spec) nsxv3_facada \<Rightarrow> string \<Rightarrow> ('nsx, 'k) agent
     \<Rightarrow> (exn + unit) \<times> ('nsx, 'k) agent"
where
  "security_group_rule_updated rpc nsxv3 security_group_id =
     (let sg_id = security_group_id in
      with_lock (PStr sg_id) (\<lambda>s.
        case get_or_create_security_group nsxv3 sg_id (nsx s) of
          (r, store) \<Rightarrow>
        let s1 = s\<lparr>nsx := store\<rparr> in
        or_raise r s1 (\<lambda>(ipset, nsg, sec).
        or_raise (nsx_get_revisions nsxv3 IPSet None store) s1 (\<lambda>(_, revs_ips, _).
        or_raise (nsx_get_revisions nsxv3 FirewallRule (Some (''section_id'', obj_id sec)) store)
          s1 (\<lambda>(_, revs_fwr, meta_fwr).
        or_raise (get_rules_for_security_groups_id rpc sg_id) s1 (\<lambda>neutron_rules.
        or_raise (rule_lists nsxv3 ipset nsg revs_ips revs_fwr meta_fwr neutron_rules) s1
          (\<lambda>(add_rules, del_rules).
        or_raise (get_security_group_revision rpc sg_id) s1 (\<lambda>(sg_id', revision).
          case update_security_group_rules nsxv3 sg_id' revision add_rules del_rules store of
            (r', store') \<Rightarrow> (r', s1\<lparr>nsx := store'\<rparr>)))))))))"

section \<open>The other security-group handlers\<close>

text \<open>\<^verbatim>\<open>security_group_updated\<close>; \<^verbatim>\<open>security_group_id\<close> is a string, as above.\<close>

definition security_group_updated ::
  "library \<Rightarrow> 'j rpc_api \<Rightarrow> ('nsx, 'i, 'spec) nsxv3_facada \<Rightarrow> string \<Rightarrow> ('nsx, 'k) agent
     \<Rightarrow> (exn + unit) \<times> ('nsx, 'k) agent"
where
  "security_group_updated lib rpc nsxv3 security_group_id =
     (let sg_id = security_group_id in
      with_lock (PStr sg_id) (\<lambda>s.
        case get_or_create_security_group nsxv3 sg_id (nsx s) of
          (r, store) \<Rightarrow>
        let s1 = s\<lparr>nsx := store\<rparr> in
        or_raise r s1 (\<lambda>_.
        or_raise (has_security_group_tag rpc security_group_id (NSXV3_CAPABILITY_TCP_STRICT lib))
          s1 (\<lambda>tcp_strict_enabled.
          case update_security_group_capabilities nsxv3 sg_id [tcp_strict_enabled] store of
            (r', store') \<Rightarrow> (r', s1\<lparr>nsx := store'\<rparr>)))))"

text \<open>
  \<^verbatim>\<open>[str(ip[0]) for ip in ip1 + ip2]\<close>: the first column of every row; an empty row raises
  \<^verbatim>\<open>IndexError\<close>.
\<close>

fun first_columns :: "string list list \<Rightarrow> exn + string list" where
  "first_columns [] = Inr []"
| "first_columns ([] # rows) = Inl IndexError"
| "first_columns ((ip # columns) # rows) =
     (case first_columns rows of Inl e \<Rightarrow> Inl e | Inr ips \<Rightarrow> Inr (ip # ips))"

definition security_group_member_updated ::
  "library \<Rightarrow> 'j rpc_api \<Rightarrow> ('nsx, 'i, 'spec) nsxv3_facada \<Rightarrow> string \<Rightarrow> ('nsx, 'k) agent
     \<Rightarrow> (exn + unit) \<times> ('nsx, 'k) agent"
where
  "security_group_member_updated lib rpc nsxv3 security_group_id =
     (let sg_id = security_group_id in
      with_lock (PStr sg_id) (\<lambda>s.
        case get_or_create_security_group nsxv3 sg_id (nsx s) of
          (r, store) \<Rightarrow>
        let s1 = s\<lparr>nsx := store\<rparr> in
        or_raise r s1 (\<lambda>_.
        or_raise (get_security_group_members_ips rpc sg_id) s1 (\<lambda>ip1.
        or_raise (get_security_group_members_address_bindings_ips rpc sg_id) s1 (\<lambda>ip2.
        or_raise (first_columns (ip1 @ ip2)) s1 (\<lambda>addresses.
        or_raise (iter_cidrs lib addresses) s1 (\<lambda>members.
          case update_security_group_members nsxv3 sg_id members store of
            (r', store') \<Rightarrow> (r', s1\<lparr>nsx := store'\<rparr>))))))))"

text \<open>
  \<^verbatim>\<open>sync_security_group(security_group_id, update_rules=True)\<close>; the runner calls it with
  the key alone, hence with \<^verbatim>\<open>update_rules\<close> true.
\<close>

definition sync_security_group ::
  "library \<Rightarrow> pyval rpc_api \<Rightarrow> ('nsx, pyval, 'spec) nsxv3_facada \<Rightarrow> string \<Rightarrow> bool
     \<Rightarrow> ('nsx, 'k) agent \<Rightarrow> (exn + unit) \<times> ('nsx, 'k) agent"
where
  "sync_security_group lib rpc nsxv3 security_group_id update_rules s =
     (case security_group_updated lib rpc nsxv3 security_group_id s of
        (Inl e, s1) \<Rightarrow> (Inl e, s1)
      | (Inr _, s1) \<Rightarrow>
     (case security_group_member_updated lib rpc nsxv3 security_group_id s1 of
        (Inl e, s2) \<Rightarrow> (Inl e, s2)
      | (Inr _, s2) \<Rightarrow>
          if update_rules then security_group_rule_updated rpc nsxv3 security_group_id s2
          else (Inr (), s2)))"

section \<open>Ports and QoS policies\<close>

text \<open>The constants of \<^verbatim>\<open>neutron_lib.api.definitions.portbindings\<close> that the agent uses.\<close>

definition VNIC_TYPE :: string where
  "VNIC_TYPE = ''binding:vnic_type''"

definition VNIC_NORMAL :: pyval where
  "VNIC_NORMAL = PStr ''normal''"

definition VIF_TYPE :: string where
  "VIF_TYPE = ''binding:vif_type''"

definition VIF_TYPE_OVS :: pyval where
  "VIF_TYPE_OVS = PStr ''ovs''"

text \<open>
  What \<^verbatim>\<open>for addr in v\<close> iterates over: the elements of a list, the characters of a
  string, the keys of a dictionary; \<^verbatim>\<open>None\<close> and integers raise \<^verbatim>\<open>TypeError\<close>.
\<close>

fun iterate :: "pyval \<Rightarrow> exn + pyval list" where
  "iterate (PList xs) = Inr xs"
| "iterate (PStr s) = Inr (map (\<lambda>c. PStr [c]) s)"
| "iterate (PDict d) = Inr (map (\<lambda>(k, v). PStr k) d)"
| "iterate PNone = Inl TypeError"
| "iterate (PInt i) = Inl TypeError"

text \<open>\<^verbatim>\<open>addr.get(k)\<close> and \<^verbatim>\<open>addr[k]\<close> on an element of such a list.\<close>

fun addr_get :: "pyval \<Rightarrow> string \<Rightarrow> exn + pyval" where
  "addr_get (PDict d) k = (case map_of d k of None \<Rightarrow> Inr PNone | Some v \<Rightarrow> Inr v)"
| "addr_get _ k = Inl AttributeError"

fun addr_item :: "pyval \<Rightarrow> string \<Rightarrow> exn + pyval" where
  "addr_item (PDict d) k = (case map_of d k of None \<Rightarrow> Inl (KeyError k) | Some v \<Rightarrow> Inr v)"
| "addr_item _ k = Inl TypeError"

text \<open>The loop over \<^verbatim>\<open>port["fixed_ips"]\<close>.\<close>

fun fixed_ip_bindings ::
  "(string, pyval) alist \<Rightarrow> pyval list \<Rightarrow> (pyval \<times> pyval) list \<Rightarrow> exn + (pyval \<times> pyval) list"
where
  "fixed_ip_bindings port [] address_bindings = Inr address_bindings"
| "fixed_ip_bindings port (addr # rest) address_bindings =
     (case addr_get addr ''mac_address'' of
        Inl e \<Rightarrow> Inl e
      | Inr mac \<Rightarrow>
     (case (if truthy mac then Inr mac else getitem port ''mac_address'') of
        Inl e \<Rightarrow> Inl e
      | Inr mac' \<Rightarrow>
     (case addr_item addr ''ip_address'' of
        Inl e \<Rightarrow> Inl e
      | Inr ip \<Rightarrow> fixed_ip_bindings port rest (address_bindings @ [(ip, mac')]))))"

text \<open>The loop over \<^verbatim>\<open>port["allowed_address_pairs"]\<close>.\<close>

fun allowed_pair_bindings ::
  "pyval list \<Rightarrow> (pyval \<times> pyval) list \<Rightarrow> exn + (pyval \<times> pyval) list"
where
  "allowed_pair_bindings [] address_bindings = Inr address_bindings"
| "allowed_pair_bindings (addr # rest) address_bindings =
     (case addr_item addr ''ip_address'' of
        Inl e \<Rightarrow> Inl e
      | Inr ip \<Rightarrow>
     (case addr_item addr ''mac_address'' of
        Inl e \<Rightarrow> Inl e
      | Inr mac \<Rightarrow> allowed_pair_bindings rest (address_bindings @ [(ip, mac)])))"

definition port_update ::
  "config \<Rightarrow> ('nsx, 'j, 'spec) nsxv3_facada \<Rightarrow> (string, pyval) alist \<Rightarrow> ('nsx, 'k) agent
     \<Rightarrow> (exn + unit) \<times> ('nsx, 'k) agent"
where
  "port_update cfg nsxv3 port s =
     (let vnic_type = get_or_none port VNIC_TYPE;
          vif_type = get_or_none port VIF_TYPE
      in
      if \<not> ((truthy vnic_type \<and> vnic_type = VNIC_NORMAL) \<and>
             (truthy vif_type \<and> vif_type = VIF_TYPE_OVS)) then (Inr (), s)
      else if contains port ''binding:host_id'' \<and>
              \<not> (host cfg = get_or_none port ''binding:host_id'') then (Inr (), s)
      else
        or_raise (getitem port ''fixed_ips'') s (\<lambda>fixed_ips.
        or_raise (iterate fixed_ips) s (\<lambda>addrs.
        or_raise (fixed_ip_bindings port addrs []) s (\<lambda>bindings1.
        or_raise (getitem port ''allowed_address_pairs'') s (\<lambda>allowed.
        or_raise (iterate allowed) s (\<lambda>pairs.
        or_raise (allowed_pair_bindings pairs bindings1) s (\<lambda>address_bindings.
        or_raise (getitem port ''id'') s (\<lambda>lock_id.
          case with_lock lock_id (\<lambda>s.
                 or_raise (getitem port ''id'') s (\<lambda>port_id.
                 or_raise (getitem port ''revision_number'') s (\<lambda>revision.
                 or_raise (getitem port ''security_groups'') s (\<lambda>security_groups.
                   case nsx_port_update nsxv3 port_id revision security_groups
                          address_bindings (get_or_none port ''qos_policy_id'') (nsx s) of
                     (r, store) \<Rightarrow> (r, s\<lparr>nsx := store\<rparr>))))) s of
            (r, s') \<Rightarrow>
          or_raise r s' (\<lambda>_.
          or_raise (getitem port ''mac_address'') s' (\<lambda>mac.
            if \<not> hashable mac then (Inl TypeError, s')
            else (Inr (), s'\<lparr>updated_devices := insert mac (updated_devices s')\<rparr>)))))))))))"

text \<open>
  \<^verbatim>\<open>"/" in ip\<close>: a substring test on a string, membership in a list, a key test on a
  dictionary; \<^verbatim>\<open>None\<close> and integers raise \<^verbatim>\<open>TypeError\<close>.
\<close>

fun slash_in :: "pyval \<Rightarrow> exn + bool" where
  "slash_in (PStr s) = Inr (CHR ''/'' \<in> set s)"
| "slash_in (PList xs) = Inr (PStr ''/'' \<in> set xs)"
| "slash_in (PDict d) = Inr (''/'' \<in> fst ` set d)"
| "slash_in PNone = Inl TypeError"
| "slash_in (PInt i) = Inl TypeError"

text \<open>
  The loop over \<^verbatim>\<open>self.rpc.get_port_allowed_pairs(port_id)\<close> in \<^verbatim>\<open>sync_port\<close>: a pair whose
  address holds a slash is left out.
\<close>

fun append_allowed_pairs :: "(pyval \<times> pyval) list \<Rightarrow> pyval list \<Rightarrow> exn + pyval list" where
  "append_allowed_pairs [] allowed = Inr allowed"
| "append_allowed_pairs ((ip, mac) # rest) allowed =
     (case slash_in ip of
        Inl e \<Rightarrow> Inl e
      | Inr True \<Rightarrow> append_allowed_pairs rest allowed
      | Inr False \<Rightarrow>
          append_allowed_pairs rest
            (allowed @ [PDict [(''ip_address'', ip), (''mac_address'', mac)]]))"

text \<open>The dictionary \<^verbatim>\<open>port\<close> as \<^verbatim>\<open>sync_port\<close> first builds it, the three lists empty.\<close>

definition new_port :: "port_row \<Rightarrow> (string, pyval) alist" where
  "new_port row =
     (case row of (port_id, mac, up, status, qos_id, revision, binding_host, vif_details) \<Rightarrow>
        DAList.update VIF_TYPE VIF_TYPE_OVS
          (DAList.update VNIC_TYPE VNIC_NORMAL
             (DAList.update ''binding:host_id'' binding_host
                (DAList.update ''revision_number'' revision
                   (DAList.update ''security_groups'' (PList [])
                      (DAList.update ''allowed_address_pairs'' (PList [])
                         (DAList.update ''fixed_ips'' (PList [])
                            (DAList.update ''qos_policy_id'' qos_id
                               (DAList.update ''status'' status
                                  (DAList.update ''admin_state_up'' up
                                     (DAList.update ''mac_address'' mac
                                        (DAList.update ''id'' port_id DAList.empty))))))))))))"

text \<open>
  \<^verbatim>\<open>sync_port\<close>. The three \<^verbatim>\<open>append\<close> loops fill the lists of the dictionary;
  \<^verbatim>\<open>segmentation_id\<close> is only logged by \<^verbatim>\<open>port_update\<close>, but reading it can raise.
\<close>

definition sync_port ::
  "library \<Rightarrow> config \<Rightarrow> 'j rpc_api \<Rightarrow> ('nsx, 'i, 'spec) nsxv3_facada \<Rightarrow> pyval \<Rightarrow> ('nsx, 'k) agent
     \<Rightarrow> (exn + unit) \<times> ('nsx, 'k) agent"
where
  "sync_port lib cfg rpc nsxv3 port_id s =
     or_raise (get_port rpc port_id) s (\<lambda>row.
       case row of (pid, mac, up, status, qos_id, revision, binding_host, vif_details) \<Rightarrow>
       let port = new_port row in
       or_raise (json_loads lib vif_details) s (\<lambda>details.
       or_raise (addr_get details ''segmentation_id'') s (\<lambda>segmentation_id.
       or_raise (get_port_addresses rpc port_id) s (\<lambda>addresses.
       let fixed_ips =
             map (\<lambda>(ip, subnet).
                    PDict [(''ip_address'', ip), (''mac_address'', mac), (''subnet_id'', subnet)])
                 addresses;
           port1 = DAList.update ''fixed_ips'' (PList fixed_ips) port
       in
       or_raise (get_port_allowed_pairs rpc port_id) s (\<lambda>pairs.
       or_raise (append_allowed_pairs pairs []) s (\<lambda>allowed.
       let port2 = DAList.update ''allowed_address_pairs'' (PList allowed) port1 in
       or_raise (get_port_security_groups rpc port_id) s (\<lambda>security_groups.
       let port3 = DAList.update ''security_groups'' (PList security_groups) port2 in
       port_update cfg nsxv3 port3 s)))))))"

text \<open>
  \<^verbatim>\<open>create_policy\<close> and \<^verbatim>\<open>update_policy\<close>: the log line reads \<^verbatim>\<open>policy["name"]\<close>, the lock is
  taken on \<^verbatim>\<open>policy["id"]\<close>.
\<close>

definition create_policy ::
  "('nsx, 'i, 'spec) nsxv3_facada \<Rightarrow> pyval \<Rightarrow> (string, pyval) alist \<Rightarrow> ('nsx, 'k) agent
     \<Rightarrow> (exn + unit) \<times> ('nsx, 'k) agent"
where
  "create_policy nsxv3 context policy s =
     or_raise (getitem policy ''name'') s (\<lambda>_.
     or_raise (getitem policy ''id'') s (\<lambda>lock_id.
       with_lock lock_id (\<lambda>s.
         or_raise (getitem policy ''id'') s (\<lambda>policy_id.
         or_raise (getitem policy ''revision_number'') s (\<lambda>revision.
           case create_switch_profile_qos nsxv3 policy_id revision (nsx s) of
             (r, store) \<Rightarrow> (r, s\<lparr>nsx := store\<rparr>)))) s))"

definition update_policy ::
  "('nsx, 'i, 'spec) nsxv3_facada \<Rightarrow> pyval \<Rightarrow> (string, pyval) alist \<Rightarrow> ('nsx, 'k) agent
     \<Rightarrow> (exn + unit) \<times> ('nsx, 'k) agent"
where
  "update_policy nsxv3 context policy s =
     or_raise (getitem policy ''name'') s (\<lambda>_.
     or_raise (getitem policy ''id'') s (\<lambda>lock_id.
       with_lock lock_id (\<lambda>s.
         or_raise (getitem policy ''id'') s (\<lambda>policy_id.
         or_raise (getitem policy ''revision_number'') s (\<lambda>revision.
         or_raise (getitem policy ''rules'') s (\<lambda>rules.
           case update_switch_profile_qos nsxv3 context policy_id revision rules (nsx s) of
             (r, store) \<Rightarrow> (r, s\<lparr>nsx := store\<rparr>))))) s))"

text \<open>
  The list \<^verbatim>\<open>rules\<close> of \<^verbatim>\<open>sync_qos\<close>: the DSCP marks, then the bandwidth limits.
\<close>

definition qos_rules ::
  "(pyval \<times> pyval) list \<Rightarrow> (pyval \<times> pyval \<times> pyval) list \<Rightarrow> pyval list"
where
  "qos_rules dscp_rules bwls_rules =
     (let rules0 = (if dscp_rules \<noteq> []
                    then map (\<lambda>(_, dscp_mark). PDict [(''dscp_mark'', dscp_mark)]) dscp_rules
                    else [])
      in
      if bwls_rules \<noteq> []
      then rules0 @
           map (\<lambda>(direction, max_kbps, max_burst_kbps).
                  PDict [(''direction'', direction), (''max_kbps'', max_kbps),
                         (''max_burst_kbps'', max_burst_kbps)])
               bwls_rules
      else rules0)"

text \<open>
  \<^verbatim>\<open>sync_qos\<close>. An instance of \<^verbatim>\<open>Exception\<close> raised by \<^verbatim>\<open>create_policy\<close> is caught (and at
  most logged); \<^verbatim>\<open>update_policy\<close> runs after it in either case, with \<^verbatim>\<open>context=None\<close>.
\<close>

definition sync_qos ::
  "'j rpc_api \<Rightarrow> ('nsx, 'i, 'spec) nsxv3_facada \<Rightarrow> pyval \<Rightarrow> ('nsx, 'k) agent
     \<Rightarrow> (exn + unit) \<times> ('nsx, 'k) agent"
where
  "sync_qos rpc nsxv3 qos_id s =
     or_raise (get_qos rpc qos_id) s (\<lambda>(qos_name, qos_revision_number).
     or_raise (get_qos_bwl_rules rpc qos_id) s (\<lambda>bwls_rules.
     or_raise (get_qos_dscp_rules rpc qos_id) s (\<lambda>dscp_rules.
       let rules = qos_rules dscp_rules bwls_rules;
           policy = DAList.update ''rules'' (PList rules)
                      (DAList.update ''revision_number'' qos_revision_number
                         (DAList.update ''name'' qos_name
                            (DAList.update ''id'' qos_id DAList.empty)))
       in
       case create_policy nsxv3 PNone policy s of
         (Inl e, s1) \<Rightarrow>
           if is_Exception e then update_policy nsxv3 PNone policy s1 else (Inl e, s1)
       | (Inr _, s1) \<Rightarrow> update_policy nsxv3 PNone policy s1)))"

text \<open>
  \<^verbatim>\<open>delete_policy\<close>: the log line reads \<^verbatim>\<open>policy["name"]\<close>, the lock is taken on
  \<^verbatim>\<open>policy["id"]\<close>, and the body of the \<^verbatim>\<open>with\<close> block is \<^verbatim>\<open>pass\<close>.
\<close>

definition delete_policy ::
  "(string, pyval) alist \<Rightarrow> ('nsx, 'k) agent \<Rightarrow> (exn + unit) \<times> ('nsx, 'k) agent"
where
  "delete_policy policy s =
     or_raise (getitem policy ''name'') s (\<lambda>_.
     or_raise (getitem policy ''id'') s (\<lambda>policy_id.
       with_lock policy_id (\<lambda>s. (Inr (), s)) s))"

text \<open>
  \<^verbatim>\<open>sync_qos_orphaned\<close>: \<^verbatim>\<open>"ORPHANED-" + qos_id\<close> raises \<^verbatim>\<open>TypeError\<close> unless \<^verbatim>\<open>qos_id\<close> is a
  string.
\<close>

definition sync_qos_orphaned :: "pyval \<Rightarrow> ('nsx, 'k) agent \<Rightarrow> (exn + unit) \<times> ('nsx, 'k) agent" where
  "sync_qos_orphaned qos_id s =
     (case qos_id of
        PStr q \<Rightarrow>
          delete_policy
            (DAList.update ''name'' (PStr (''ORPHANED-'' @ q))
               (DAList.update ''id'' qos_id DAList.empty)) s
      | _ \<Rightarrow> (Inl TypeError, s))"

section \<open>The polling entry point: \<^verbatim>\<open>NSXv3Manager.get_all_devices\<close>\<close>



section \<open>Notions used to state the properties\<close>

text \<open>
  A run of the paging protocol: starting from the watermark \<open>created_after\<close>, every page
  but the last holds at least \<open>limit\<close> records and hands the creation time of its last
  record on as the next watermark; the last page holds fewer than \<open>limit\<close> records.
\<close>

fun paging :: "'k query \<Rightarrow> int \<Rightarrow> datetime \<Rightarrow> 'k revision_tuple list list \<Rightarrow> bool" where
  "paging query limit created_after [] = False"
| "paging query limit created_after [page] =
     (query limit created_after = Inr page \<and> int (length page) < limit)"
| "paging query limit created_after (page # pages) =
     (query limit created_after = Inr page \<and> \<not> int (length page) < limit \<and>
      paging query limit (snd (snd (last page))) pages)"

text \<open>The revision most recently returned for a key, among tuples in the order returned.\<close>

fun latest_revision :: "'k revision_tuple list \<Rightarrow> 'k \<Rightarrow> string option" where
  "latest_revision [] k = None"
| "latest_revision ((port, revision, created_at) # rest) k =
     (case latest_revision rest k of
        Some v \<Rightarrow> Some v
      | None \<Rightarrow> if port = k then Some (str_int revision) else None)"

text \<open>
  The three kinds of objects of the inventory, the handlers that a pass submits for the
  outdated keys of a kind, and the handler that removes the orphaned keys of a kind.
\<close>

datatype kind = SecurityGroups | QosPolicies | Ports

fun outdated_handlers :: "kind \<Rightarrow> handler list" where
  "outdated_handlers SecurityGroups =
     [Security_group_updated, Security_group_member_updated, Security_group_rule_updated]"
| "outdated_handlers QosPolicies = [Sync_qos]"
| "outdated_handlers Ports = [Sync_port]"

fun orphaned_handler :: "kind \<Rightarrow> handler" where
  "orphaned_handler SecurityGroups = Sync_security_group_orphaned"
| "orphaned_handler QosPolicies = Sync_qos_orphaned"
| "orphaned_handler Ports = Sync_port_orphaned"

text \<open>
  The ordering read literally: among the batches \<open>bs\<close>, the orphaned keys of the kind
  are submitted, and each such submission has a strictly lower priority than every
  submission for the outdated keys of the same kind.
\<close>

definition orphaned_strictly_lower :: "'k batch list \<Rightarrow> kind \<Rightarrow> bool" where
  "orphaned_strictly_lower bs kd =
     (list_ex (\<lambda>(p, its, h). h = orphaned_handler kd) bs \<and>
      list_all (\<lambda>(p, its, h). h = orphaned_handler kd \<longrightarrow>
        list_all (\<lambda>(p', its', h'). h' \<in> set (outdated_handlers kd) \<longrightarrow> lower_priority p p') bs) bs)"

text \<open>
  An existing target rule counts as disabled when the metadata of its name carries a
  true \<^verbatim>\<open>FirewallRule.disabled\<close>.
\<close>

definition is_disabled :: "(pyval, (string, pyval) alist) alist \<Rightarrow> pyval \<Rightarrow> bool" where
  "is_disabled meta_fwr name =
     (case DAList.lookup meta_fwr name of
        None \<Rightarrow> False
      | Some m \<Rightarrow> truthy (get_or_none m ''FirewallRule.disabled''))"

text \<open>
The identifiers carried by the rules of the authoritative list.
\<close>

definition rule_ids :: "(string, pyval) alist list \<Rightarrow> pyval set" where
  "rule_ids rules = {name. \<exists>rule \<in> set rules. getitem rule ''id'' = Inr name}"

text \<open>
  \<open>spec\<close> is what \<^verbatim>\<open>get_security_group_rule_spec\<close> builds from the projection of
  \<open>rule\<close>, whose identifier is \<open>name\<close>.
\<close>

definition built_from ::
  "('nsx, 'k, 'spec) nsxv3_facada \<Rightarrow> sdk_object \<Rightarrow> sdk_object \<Rightarrow> (pyval, pyval) alist
     \<Rightarrow> (string, pyval) alist \<Rightarrow> pyval \<Rightarrow> 'spec \<Rightarrow> bool"
where
  "built_from nsxv3 ipset nsg revs_ips rule name spec =
     (\<exists>fwr. project_rule ipset nsg revs_ips rule = Inr (name, fwr) \<and>
            get_security_group_rule_spec nsxv3 fwr = Inr (Some spec))"

section \<open>Example inputs\<close>

definition example_config :: config where
  "example_config =
     \<lparr>rpc_max_records_per_query = 2, polling_interval = 2, sync_full_schedule = 3600,
      host = PStr ''node-1''\<rparr>"

text \<open>
  A source store with the keys \<open>A\<close> and \<open>B\<close>: a full first page, then a short one.
\<close>

definition example_query :: "string query" where
  "example_query limit created_after =
     (if created_after < 20 then Inr [(''A'', 1, 10), (''B'', 2, 20)]
      else if created_after < 30 then Inr [(''B'', 2, 30)]
      else Inr [])"


definition example_rpc :: "string query \<Rightarrow> string rpc_api" where
  "example_rpc q =
     \<lparr>get_security_group_revision_tuples = q,
      get_qos_policy_revision_tuples = q,
      get_port_revision_tuples = q,
      get_rules_for_security_groups_id = (\<lambda>sg_id. Inr []),
      get_security_group_revision = (\<lambda>sg_id. Inr (sg_id, PInt 1)),
      has_security_group_tag = (\<lambda>sg_id tag. Inr (PInt 0)),
      get_security_group_members_ips = (\<lambda>sg_id. Inr [[''10.0.0.5'']]),
      get_security_group_members_address_bindings_ips = (\<lambda>sg_id. Inr []),
      get_qos = (\<lambda>qos_id. Inr (PStr ''gold'', PInt 3)),
      get_qos_bwl_rules = (\<lambda>qos_id. Inr [(PStr ''egress'', PInt 1000, PInt 100)]),
      get_qos_dscp_rules = (\<lambda>qos_id. Inr []),
      get_port = (\<lambda>port_id.
        Inr (port_id, PStr ''fa:16:3e:00:00:01'', PInt 1, PStr ''ACTIVE'', PNone, PInt 7,
             PStr ''node-1'', PStr ''{}'')),
      get_port_addresses = (\<lambda>port_id. Inr [(PStr ''10.0.0.5'', PStr ''subnet-1'')]),
      get_port_allowed_pairs = (\<lambda>port_id.
        Inr [(PStr ''10.0.0.9'', PStr ''fa:16:3e:00:00:09''),
             (PStr ''10.1.0.0/24'', PStr ''fa:16:3e:00:00:0a'')]),
      get_port_security_groups = (\<lambda>port_id. Inr [PStr ''sg-1''])\<rparr>"

text \<open>
  A target store that cannot fail: revision queries answer \<open>revs\<close>, and every rule is
  given a specification, namely its own projection.
\<close>

definition example_facada :: "'k nsx_revisions \<Rightarrow> (unit, 'k, (string, pyval) alist) nsxv3_facada" where
  "example_facada revs =
     \<lparr>nsx_get_revisions = (\<lambda>model attr store. Inr revs),
      get_or_create_security_group = (\<lambda>sg_id store.
        (Inr (\<lparr>obj_id = PStr ''ipset-1''\<rparr>, \<lparr>obj_id = PStr ''nsgroup-1''\<rparr>,
              \<lparr>obj_id = PStr ''section-1''\<rparr>), store)),
      get_security_group_rule_spec = (\<lambda>fwr. Inr (Some fwr)),
      update_security_group_rules = (\<lambda>sg_id revision add_rules del_rules store. (Inr (), store)),
      nsx_port_update = (\<lambda>port_id revision sgs bindings qos store. (Inr (), store)),
      update_security_group_capabilities = (\<lambda>sg_id capabilities store. (Inr (), store)),
      update_security_group_members = (\<lambda>sg_id members store. (Inr (), store)),
      create_switch_profile_qos = (\<lambda>qos_id revision store. (Inr (), store)),
      update_switch_profile_qos = (\<lambda>context qos_id revision rules store. (Inr (), store))\<rparr>"

definition example_target :: "string nsx_revisions" where
  "example_target =
     (DAList.update ''C'' ''9'' (DAList.update ''A'' ''1'' DAList.empty), DAList.empty, DAList.empty)"

text \<open>
  A target store that holds \<open>A\<close> at the source's revision and one key that the source
  lacks, and a facade whose three inventories differ in that key: \<open>C\<close> among the
  security groups, \<open>Q\<close> among the QoS profiles, \<open>P\<close> among the ports.
\<close>

definition example_target_of :: "string \<Rightarrow> string nsx_revisions" where
  "example_target_of x =
     (DAList.update x ''9'' (DAList.update ''A'' ''1'' DAList.empty), DAList.empty, DAList.empty)"

definition example_store_facada :: "(unit, string, (string, pyval) alist) nsxv3_facada" where
  "example_store_facada =
     (example_facada (example_target_of ''C''))
       \<lparr>nsx_get_revisions := (\<lambda>model attr store.
          case model of
            QosSwitchingProfile \<Rightarrow> Inr (example_target_of ''Q'')
          | LogicalPort \<Rightarrow> Inr (example_target_of ''P'')
          | _ \<Rightarrow> Inr (example_target_of ''C''))\<rparr>"

definition example_agent :: "(unit, string) agent" where
  "example_agent =
     \<lparr>nsx = (), marker = None, runner = [], lock_log = [], updated_devices = {}\<rparr>"


definition example_port :: "pyval \<Rightarrow> pyval \<Rightarrow> pyval \<Rightarrow> (string, pyval) alist" where
  "example_port vnic vif binding_host =
     DAList.update ''binding:host_id'' binding_host
       (DAList.update VIF_TYPE vif
          (DAList.update VNIC_TYPE vnic
             (DAList.update ''mac_address'' (PStr ''fa:16:3e:00:00:01'')
                (DAList.update ''id'' (PStr ''port-1'') DAList.empty))))"

definition example_rule :: "string \<Rightarrow> pyval \<Rightarrow> (string, pyval) alist" where
  "example_rule rule_id remote_group =
     DAList.update ''security_group_id'' (PStr ''sg-1'')
       (DAList.update ''remote_ip_prefix'' PNone
          (DAList.update ''remote_group_id'' remote_group
             (DAList.update ''direction'' (PStr ''ingress'')
                (DAList.update ''ethertype'' (PStr ''IPv4'')
                   (DAList.update ''protocol'' (PStr ''tcp'')
                      (DAList.update ''port_range_max'' (PInt 443)
                         (DAList.update ''port_range_min'' (PInt 443)
                            (DAList.update ''id'' (PStr rule_id) DAList.empty))))))))"

definition example_ipset :: sdk_object where
  "example_ipset = \<lparr>obj_id = PStr ''ipset-1''\<rparr>"

definition example_nsgroup :: sdk_object where
  "example_nsgroup = \<lparr>obj_id = PStr ''nsgroup-1''\<rparr>"

definition example_revs_ips :: "(pyval, pyval) alist" where
  "example_revs_ips = DAList.update (PStr ''sg-2'') (PStr ''ipset-2'') DAList.empty"

definition example_revs_fwr :: "(pyval, pyval) alist" where
  "example_revs_fwr = DAList.update (PStr ''R1'') (PStr ''nsx-rule-1'') DAList.empty"

definition example_meta_fwr :: "int \<Rightarrow> (pyval, (string, pyval) alist) alist" where
  "example_meta_fwr disabled =
     DAList.update (PStr ''R1'')
       (DAList.update ''FirewallRule.disabled'' (PInt disabled) DAList.empty) DAList.empty"

text \<open>
  Two target stores for rules: one whose \<^verbatim>\<open>get_security_group_rule_spec\<close> returns
  \<^verbatim>\<open>None\<close> for every rule, and one that gives every rule a specification.
\<close>

definition rejecting_facada :: "(unit, pyval, (string, pyval) alist) nsxv3_facada" where
  "rejecting_facada =
     (example_facada (DAList.empty, DAList.empty, DAList.empty))
       \<lparr>get_security_group_rule_spec := (\<lambda>fwr. Inr None)\<rparr>"

definition accepting_facada :: "(unit, pyval, (string, pyval) alist) nsxv3_facada" where
  "accepting_facada = example_facada (DAList.empty, DAList.empty, DAList.empty)"

section \<open>Dictionaries and state projections\<close>

lemma in_items_iff: "(k, r) \<in> set (items d) \<longleftrightarrow> DAList.lookup d k = Some r"
  by (simp add: items_def DAList.lookup.rep_eq)

lemma in_keys_iff: "k \<in> set (keys d) \<longleftrightarrow> contains d k"
  by (auto simp: keys_def contains_def DAList.lookup.rep_eq map_of_eq_None_iff
      dest: weak_map_of_SomeI)

lemma in_items_contains: "(k, v) \<in> set (items d) \<Longrightarrow> contains d k"
  by (simp add: in_items_iff contains_def)

lemma items_delete: "items (DAList.delete name d) = filter (\<lambda>(k, v). k \<noteq> name) (items d)"
  by (simp add: items_def DAList.delete.rep_eq AList.delete_eq case_prod_unfold eq_commute)

lemma values_of_items: "values_of d = map snd (items d)"
  by (simp add: values_of_def items_def)

lemmas dict_eval =
  getitem_def get_or_none_def contains_def values_of_def items_def keys_def
  DAList.lookup.rep_eq DAList.update.rep_eq DAList.delete.rep_eq DAList.empty.rep_eq

lemma nsx_run [simp]: "nsx (run p its h s) = nsx s"
  by (simp add: run_def)

lemma marker_run [simp]: "marker (run p its h s) = marker s"
  by (simp add: run_def)

lemma runner_run [simp]: "runner (run p its h s) = runner s @ [(p, its, h)]"
  by (simp add: run_def)

lemma lock_log_run [simp]: "lock_log (run p its h s) = lock_log s"
  by (simp add: run_def)

lemma updated_devices_run [simp]: "updated_devices (run p its h s) = updated_devices s"
  by (simp add: run_def)

lemma marker_release [simp]: "marker (release key s) = marker s"
  by (simp add: release_def)

lemma marker_acquire [simp]: "marker (acquire key s) = marker s"
  by (simp add: acquire_def)

lemma nsx_release [simp]: "nsx (release key s) = nsx s"
  by (simp add: release_def)

lemma nsx_acquire [simp]: "nsx (acquire key s) = nsx s"
  by (simp add: acquire_def)

lemma runner_acquire [simp]: "runner (acquire key s) = runner s"
  by (simp add: acquire_def)

lemma runner_release [simp]: "runner (release key s) = runner s"
  by (simp add: release_def)

lemma runner_passive_acquire [simp]: "runner_passive (acquire key s) = runner_passive s"
  by (simp add: runner_passive_def)

section \<open>Cursor-based retrieval terminates and keeps the latest revision\<close>

lemma paging_limit_pos: "paging query limit w pages \<Longrightarrow> 0 < limit"
  by (induction query limit w pages rule: paging.induct) auto

lemma record_page_append:
  "record_page (xs @ ys) revs = record_page ys (record_page xs revs)"
  by (simp add: record_page_def)

lemma get_revisions_loop_paging:
  "paging query limit w pages \<Longrightarrow>
   get_revisions_loop query limit revs w = Some (Inr (record_page (concat pages) revs))"
proof (induction query limit w pages arbitrary: revs rule: paging.induct)
  case (1 query limit created_after)
  then show ?case by simp
next
  case (2 query limit created_after page)
  then show ?case
    by (subst get_revisions_loop.simps) simp
next
  case (3 query limit created_after page v va)
  from "3.prems" have q: "query limit created_after = Inr page"
    and full: "\<not> int (length page) < limit"
    and rest: "paging query limit (snd (snd (last page))) (v # va)"
    by simp_all
  from rest have "0 < limit" by (rule paging_limit_pos)
  with full have ne: "page \<noteq> []" by auto
  show ?case
    by (subst get_revisions_loop.simps)
       (simp add: q full ne "3.IH"[OF rest] record_page_append)
qed

lemma lookup_record_page:
  "DAList.lookup (record_page tuples revs) k =
     (case latest_revision tuples k of Some v \<Rightarrow> Some v | None \<Rightarrow> DAList.lookup revs k)"
proof (induction tuples arbitrary: revs)
  case Nil
  then show ?case by (simp add: record_page_def)
next
  case (Cons t tuples)
  obtain port revision created_at where t: "t = (port, revision, created_at)"
    by (cases t)
  have "record_page (t # tuples) revs =
          record_page tuples (DAList.update port (str_int revision) revs)"
    by (simp add: record_page_def t)
  then show ?case
    by (simp add: Cons.IH t DAList.lookup_update split: option.splits)
qed

text \<open>
  C6. Whenever the paging protocol, started at the epoch with the configured limit and
  handing on the creation time of the last record of each page as the next watermark,
  reaches a page with fewer records than the limit, \<open>get_revisions\<close> returns; it has
  read the pages up to that one and no further, and the dictionary it returns maps every
  key of these pages to the revision returned for it last, and holds no other key.
\<close>

theorem get_revisions_terminates:
  assumes "paging query (rpc_max_records_per_query cfg) epoch pages"
  shows "\<exists>revs. get_revisions cfg query = Some (Inr revs) \<and>
           (\<forall>k. DAList.lookup revs k = latest_revision (concat pages) k)"
  using get_revisions_loop_paging[OF assms, of DAList.empty]
  by (simp add: get_revisions_def lookup_record_page split: option.splits)

lemma example_get_revisions:
  "get_revisions example_config example_query =
     Some (Inr (DAList.update ''B'' ''2'' (DAList.update ''A'' ''1'' DAList.empty)))"
  apply (simp add: get_revisions_def epoch_def)
  apply (subst get_revisions_loop.simps)
  apply (simp add: example_config_def example_query_def record_page_def str_int_def)
  apply (subst get_revisions_loop.simps)
  apply (simp add: example_config_def example_query_def record_page_def str_int_def)
  done


theorem get_revisions_terminates_witness:
  "paging example_query (rpc_max_records_per_query example_config) epoch
     [[(''A'', 1, 10), (''B'', 2, 20)], [(''B'', 2, 30)]] \<and>
   (\<exists>revs. get_revisions example_config example_query = Some (Inr revs) \<and>
      DAList.lookup revs ''A'' = Some ''1'' \<and> DAList.lookup revs ''B'' = Some ''2'' \<and>
      DAList.lookup revs ''C'' = None)"
proof -
  have p: "paging example_query (rpc_max_records_per_query example_config) epoch
             [[(''A'', 1, 10), (''B'', 2, 20)], [(''B'', 2, 30)]]"
    by (simp add: example_query_def example_config_def epoch_def)
  from get_revisions_terminates[OF p] obtain revs where
    "get_revisions example_config example_query = Some (Inr revs)"
    "\<forall>k. DAList.lookup revs k =
       latest_revision (concat [[(''A'', 1, 10), (''B'', 2, 20)], [(''B'', 2, 30)]]) k"
    by blast
  then show ?thesis using p by (simp add: str_int_def)
qed

section \<open>Revision diff\<close>

lemma fold_outdated:
  "fold (\<lambda>(key, r) outdated.
           if DAList.lookup revs_nsx key \<noteq> Some r then insert key outdated else outdated) xs A
   = A \<union> {k. \<exists>r. (k, r) \<in> set xs \<and> DAList.lookup revs_nsx k \<noteq> Some r}"
  by (induction xs arbitrary: A) (auto split: if_splits)

lemma collect_outdated_eq:
  "collect_outdated revs_os revs_nsx =
     {k. contains revs_os k \<and> DAList.lookup revs_nsx k \<noteq> DAList.lookup revs_os k}"
  by (auto simp: collect_outdated_def fold_outdated in_items_iff contains_def)

lemma sync_get_content_eq:
  assumes "get_revisions cfg os_query = Some (Inr revs_os)"
    and "nsx_get_revisions nsxv3 model None store = Inr (revs_nsx, ids, meta)"
  shows "sync_get_content cfg nsxv3 model os_query store =
           Some (Inr ({k. contains revs_os k \<and> DAList.lookup revs_nsx k \<noteq> DAList.lookup revs_os k},
                      {k. contains revs_nsx k \<and> \<not> contains revs_os k}))"
proof -
  have "set (keys revs_nsx) - set (keys revs_os) = {k. contains revs_nsx k \<and> \<not> contains revs_os k}"
    by (auto simp: in_keys_iff)
  then show ?thesis
    using assms by (simp add: sync_get_content_def collect_outdated_eq)
qed

lemma example_outdated:
  "{k. contains (DAList.update ''B'' ''2'' (DAList.update ''A'' ''1'' DAList.empty)) k \<and>
       DAList.lookup (DAList.update ''C'' ''9'' (DAList.update ''A'' ''1'' DAList.empty)) k \<noteq>
       DAList.lookup (DAList.update ''B'' ''2'' (DAList.update ''A'' ''1'' DAList.empty)) k}
   = {''B''}"
  by (auto simp: contains_def DAList.lookup_update split: if_splits)

lemma example_orphaned:
  "{k. contains (DAList.update ''C'' ''9'' (DAList.update ''A'' ''1'' DAList.empty)) k \<and>
       \<not> contains (DAList.update ''B'' ''2'' (DAList.update ''A'' ''1'' DAList.empty)) k}
   = {''C''}"
  by (auto simp: contains_def DAList.lookup_update split: if_splits)

lemma example_content_of:
  assumes "x \<noteq> ''A''" and "x \<noteq> ''B''"
    and "nsx_get_revisions nsxv3 model None store = Inr (example_target_of x)"
  shows "sync_get_content example_config nsxv3 model example_query store
           = Some (Inr ({''B''}, {x}))"
proof -
  have o: "{k. contains (DAList.update ''B'' ''2'' (DAList.update ''A'' ''1'' DAList.empty)) k \<and>
            DAList.lookup (DAList.update x ''9'' (DAList.update ''A'' ''1'' DAList.empty)) k \<noteq>
            DAList.lookup (DAList.update ''B'' ''2'' (DAList.update ''A'' ''1'' DAList.empty)) k}
          = {''B''}"
    using assms(1,2) by (auto simp: contains_def DAList.lookup_update split: if_splits)
  have r: "{k. contains (DAList.update x ''9'' (DAList.update ''A'' ''1'' DAList.empty)) k \<and>
            \<not> contains (DAList.update ''B'' ''2'' (DAList.update ''A'' ''1'' DAList.empty)) k}
          = {x}"
    using assms(1,2) by (auto simp: contains_def DAList.lookup_update split: if_splits)
  from assms(3) have n: "nsx_get_revisions nsxv3 model None store
      = Inr (DAList.update x ''9'' (DAList.update ''A'' ''1'' DAList.empty),
             DAList.empty, DAList.empty)"
    by (simp add: example_target_of_def)
  show ?thesis
    unfolding sync_get_content_eq[OF example_get_revisions n] o r by (rule refl)
qed

lemma example_store_content:
  "sync_get_content example_config example_store_facada IPSet example_query ()
     = Some (Inr ({''B''}, {''C''}))"
  "sync_get_content example_config example_store_facada QosSwitchingProfile example_query ()
     = Some (Inr ({''B''}, {''Q''}))"
  "sync_get_content example_config example_store_facada LogicalPort example_query ()
     = Some (Inr ({''B''}, {''P''}))"
  by (rule example_content_of; simp add: example_store_facada_def)+

text \<open>
  C1. When the source query yields the revision map \<open>revs_os\<close> and the target store the
  revision map \<open>revs_nsx\<close>, \<open>_sync_get_content\<close> returns as outdated exactly the keys of
  the source map whose revision is missing from the target map or differs from it, and
  as orphaned exactly the keys of the target map that the source map lacks; the two sets
  are disjoint.
\<close>

theorem sync_get_content_diff:
  assumes "get_revisions cfg os_query = Some (Inr revs_os)"
    and "nsx_get_revisions nsxv3 model None store = Inr (revs_nsx, ids, meta)"
  shows "\<exists>outdated orphaned.
           sync_get_content cfg nsxv3 model os_query store = Some (Inr (outdated, orphaned)) \<and>
           outdated = {k. contains revs_os k \<and> DAList.lookup revs_nsx k \<noteq> DAList.lookup revs_os k} \<and>
           orphaned = {k. contains revs_nsx k \<and> \<not> contains revs_os k} \<and>
           outdated \<inter> orphaned = {}"
  unfolding sync_get_content_eq[OF assms] by auto

text \<open>
  The scenario of the specification: source \<open>{A: "1", B: "2"}\<close>, target
  \<open>{A: "1", C: "9"}\<close> give outdated \<open>{B}\<close> and orphaned \<open>{C}\<close>.
\<close>

theorem sync_get_content_diff_witness:
  "sync_get_content example_config (example_facada example_target) IPSet example_query ()
     = Some (Inr ({''B''}, {''C''}))"
proof -
  have n: "nsx_get_revisions (example_facada example_target) IPSet None ()
             = Inr (DAList.update ''C'' ''9'' (DAList.update ''A'' ''1'' DAList.empty),
                    DAList.empty, DAList.empty)"
    by (simp add: example_facada_def example_target_def)
  from sync_get_content_diff[OF example_get_revisions n] show ?thesis
    unfolding example_outdated example_orphaned by (elim exE conjE) simp
qed

section \<open>The shallow pass\<close>

lemma example_shallow:
  "sync_inventory_shallow example_config (example_rpc example_query) example_store_facada s
   = Some (Inr (), s\<lparr>runner := runner s @
       [(HIGHER, {''B''}, Security_group_updated),
        (HIGH, {''B''}, Security_group_member_updated),
        (MEDIUM, {''B''}, Security_group_rule_updated),
        (LOW, {''C''}, Sync_security_group_orphaned),
        (LOWER, {''B''}, Sync_qos),
        (LOW, {''B''}, Sync_port),
        (LOW, {''P''}, Sync_port_orphaned)]\<rparr>)"
  by (simp add: sync_inventory_shallow_def or_diverge_def example_rpc_def example_store_content
      Let_def run_def)

text \<open>
  C3, as the code has it. A shallow pass that returns has appended exactly seven batches to
  the runner, in this order. For security groups the orphaned keys go in at \<open>LOW\<close>,
  strictly below the three submissions of the outdated keys (\<open>HIGHER\<close>, \<open>HIGH\<close>,
  \<open>MEDIUM\<close>). For ports the orphaned keys go in at \<open>LOW\<close>, the priority of the outdated
  keys, and after them. For QoS policies the outdated keys go in at \<open>LOWER\<close> and the
  orphaned keys are not submitted.
\<close>

theorem shallow_pass_priorities:
  assumes "sync_inventory_shallow cfg rpc nsxv3 s = Some (Inr u, s')"
  shows "\<exists>outdated_ips orphaned_ips outdated_qos orphaned_qos outdated_lps orphaned_lps.
           sync_get_content cfg nsxv3 IPSet (get_security_group_revision_tuples rpc) (nsx s)
             = Some (Inr (outdated_ips, orphaned_ips)) \<and>
           sync_get_content cfg nsxv3 QosSwitchingProfile (get_qos_policy_revision_tuples rpc) (nsx s)
             = Some (Inr (outdated_qos, orphaned_qos)) \<and>
           sync_get_content cfg nsxv3 LogicalPort (get_port_revision_tuples rpc) (nsx s)
             = Some (Inr (outdated_lps, orphaned_lps)) \<and>
           runner s' = runner s @
             [(HIGHER, outdated_ips, Security_group_updated),
              (HIGH, outdated_ips, Security_group_member_updated),
              (MEDIUM, outdated_ips, Security_group_rule_updated),
              (LOW, orphaned_ips, Sync_security_group_orphaned),
              (LOWER, outdated_qos, Sync_qos),
              (LOW, outdated_lps, Sync_port),
              (LOW, orphaned_lps, Sync_port_orphaned)] \<and>
           orphaned_strictly_lower (drop (length (runner s)) (runner s')) SecurityGroups"
  using assms
  unfolding sync_inventory_shallow_def or_diverge_def Let_def
  by (auto simp: orphaned_strictly_lower_def lower_priority_def
      split: option.splits sum.splits prod.splits)

theorem shallow_pass_priorities_witness:
  "case sync_inventory_shallow example_config (example_rpc example_query)
          example_store_facada example_agent of
     Some (Inr u, s') \<Rightarrow>
       runner s' =
         [(HIGHER, {''B''}, Security_group_updated),
          (HIGH, {''B''}, Security_group_member_updated),
          (MEDIUM, {''B''}, Security_group_rule_updated),
          (LOW, {''C''}, Sync_security_group_orphaned),
          (LOWER, {''B''}, Sync_qos),
          (LOW, {''B''}, Sync_port),
          (LOW, {''P''}, Sync_port_orphaned)] \<and>
       orphaned_strictly_lower (runner s') SecurityGroups
   | _ \<Rightarrow> False"
proof -
  from shallow_pass_priorities[OF example_shallow, where s = example_agent]
  have "orphaned_strictly_lower
          (drop (length (runner example_agent))
             (runner (example_agent\<lparr>runner := runner example_agent @
                [(HIGHER, {''B''}, Security_group_updated),
                 (HIGH, {''B''}, Security_group_member_updated),
                 (MEDIUM, {''B''}, Security_group_rule_updated),
                 (LOW, {''C''}, Sync_security_group_orphaned),
                 (LOWER, {''B''}, Sync_qos),
                 (LOW, {''B''}, Sync_port),
                 (LOW, {''P''}, Sync_port_orphaned)]\<rparr>))) SecurityGroups"
    by (elim exE conjE)
  then show ?thesis
    unfolding example_shallow by (simp add: example_agent_def)
qed

text \<open>
  C3 as it is stated fails for ports and for QoS policies. On the example inventory the
  orphaned security groups are \<open>{C}\<close>, the orphaned QoS policies \<open>{Q}\<close> and the orphaned
  ports \<open>{P}\<close>: the orphaned ports are submitted at the priority of the outdated ports,
  and no batch carries the orphaned QoS policies or their handler.
\<close>

theorem shallow_pass_priorities_counterexample:
  "case sync_inventory_shallow example_config (example_rpc example_query)
          example_store_facada example_agent of
     Some (Inr u, s') \<Rightarrow>
       \<not> orphaned_strictly_lower (runner s') Ports \<and>
       \<not> orphaned_strictly_lower (runner s') QosPolicies \<and>
       \<not> list_ex (\<lambda>(p, its, h). its = {''Q''} \<or> h = Sync_qos_orphaned) (runner s') \<and>
       list_ex (\<lambda>(p, its, h). p = LOW \<and> its = {''P''} \<and> h = Sync_port_orphaned) (runner s') \<and>
       list_ex (\<lambda>(p, its, h). p = LOW \<and> its = {''B''} \<and> h = Sync_port) (runner s')
   | _ \<Rightarrow> False"
  unfolding example_shallow
  by (simp add: example_agent_def orphaned_strictly_lower_def lower_priority_def)

section \<open>The full pass\<close>

lemma example_full:
  "sync_inventory_full example_config (example_rpc example_query) s
   = Some (Inr (), s\<lparr>runner := runner s @
       [(HIGHER, {''A'', ''B''}, Sync_security_group),
        (HIGH, {''A'', ''B''}, Sync_qos),
        (MEDIUM, {''A'', ''B''}, Sync_port)]\<rparr>)"
  by (simp add: sync_inventory_full_def or_diverge_def example_rpc_def example_get_revisions
      Let_def run_def keys_def DAList.update.rep_eq DAList.empty.rep_eq insert_commute)



section \<open>The synchronisation gate\<close>

lemma shallow_keeps_marker:
  "sync_inventory_shallow cfg rpc nsxv3 s = Some (r, s') \<Longrightarrow> marker s' = marker s"
  unfolding sync_inventory_shallow_def or_diverge_def Let_def
  by (auto split: option.splits sum.splits prod.splits)

lemma full_keeps_marker:
  "sync_inventory_full cfg rpc s = Some (r, s') \<Longrightarrow> marker s' = marker s"
  unfolding sync_inventory_full_def or_diverge_def Let_def
  by (auto split: option.splits sum.splits prod.splits)

text \<open>
  C4. \<open>sync_inventory\<close> works between acquiring and releasing the global lock. With
  a backlog in the runner it returns at once: nothing is submitted and the marker is not
  written. With an empty backlog and an expired timestamp it runs the full pass and, when
  that pass returns, writes the current time to the marker; a full pass that raises leaves
  the marker as it was. With an empty backlog and a fresh timestamp it runs the shallow
  pass, and however that pass ends the marker is as it was.
\<close>

theorem sync_inventory_gate:
  "(0 < runner_passive s \<longrightarrow>
      sync_inventory cfg rpc nsxv3 now s =
        Some (Inr (), release AGENT_SYNCHRONIZATION_LOCK (acquire AGENT_SYNCHRONIZATION_LOCK s))) \<and>
   (runner_passive s = 0 \<and> has_expired now (sync_full_schedule cfg) (marker s) \<longrightarrow>
      (\<forall>u s1. sync_inventory_full cfg rpc (acquire AGENT_SYNCHRONIZATION_LOCK s) = Some (Inr u, s1) \<longrightarrow>
         sync_inventory cfg rpc nsxv3 now s =
           Some (Inr (), release AGENT_SYNCHRONIZATION_LOCK (timestamp_update now s1)) \<and>
         marker (release AGENT_SYNCHRONIZATION_LOCK (timestamp_update now s1)) = Some now) \<and>
      (\<forall>e s1. sync_inventory_full cfg rpc (acquire AGENT_SYNCHRONIZATION_LOCK s) = Some (Inl e, s1) \<longrightarrow>
         sync_inventory cfg rpc nsxv3 now s = Some (Inl e, release AGENT_SYNCHRONIZATION_LOCK s1) \<and>
         marker (release AGENT_SYNCHRONIZATION_LOCK s1) = marker s)) \<and>
   (runner_passive s = 0 \<and> \<not> has_expired now (sync_full_schedule cfg) (marker s) \<longrightarrow>
      sync_inventory cfg rpc nsxv3 now s =
        map_option (\<lambda>(r, s1). (r, release AGENT_SYNCHRONIZATION_LOCK s1))
          (sync_inventory_shallow cfg rpc nsxv3 (acquire AGENT_SYNCHRONIZATION_LOCK s)) \<and>
      (\<forall>r s'. sync_inventory cfg rpc nsxv3 now s = Some (r, s') \<longrightarrow> marker s' = marker s))"
proof (intro conjI impI allI)
  assume "0 < runner_passive s"
  then show "sync_inventory cfg rpc nsxv3 now s =
        Some (Inr (), release AGENT_SYNCHRONIZATION_LOCK (acquire AGENT_SYNCHRONIZATION_LOCK s))"
    by (simp add: sync_inventory_def sync_inventory_locked_def)
next
  fix u s1
  assume "runner_passive s = 0 \<and> has_expired now (sync_full_schedule cfg) (marker s)"
    and "sync_inventory_full cfg rpc (acquire AGENT_SYNCHRONIZATION_LOCK s) = Some (Inr u, s1)"
  then show "sync_inventory cfg rpc nsxv3 now s =
           Some (Inr (), release AGENT_SYNCHRONIZATION_LOCK (timestamp_update now s1))"
    by (simp add: sync_inventory_def sync_inventory_locked_def)
next
  fix u s1
  show "marker (release AGENT_SYNCHRONIZATION_LOCK (timestamp_update now s1)) = Some now"
    by (simp add: timestamp_update_def)
next
  fix e s1
  assume "runner_passive s = 0 \<and> has_expired now (sync_full_schedule cfg) (marker s)"
    and "sync_inventory_full cfg rpc (acquire AGENT_SYNCHRONIZATION_LOCK s) = Some (Inl e, s1)"
  then show "sync_inventory cfg rpc nsxv3 now s = Some (Inl e, release AGENT_SYNCHRONIZATION_LOCK s1)"
    by (simp add: sync_inventory_def sync_inventory_locked_def)
next
  fix e s1
  assume "sync_inventory_full cfg rpc (acquire AGENT_SYNCHRONIZATION_LOCK s) = Some (Inl e, s1)"
  from full_keeps_marker[OF this]
  show "marker (release AGENT_SYNCHRONIZATION_LOCK s1) = marker s"
    by simp
next
  assume "runner_passive s = 0 \<and> \<not> has_expired now (sync_full_schedule cfg) (marker s)"
  then show "sync_inventory cfg rpc nsxv3 now s =
        map_option (\<lambda>(r, s1). (r, release AGENT_SYNCHRONIZATION_LOCK s1))
          (sync_inventory_shallow cfg rpc nsxv3 (acquire AGENT_SYNCHRONIZATION_LOCK s))"
    by (simp add: sync_inventory_def sync_inventory_locked_def split: option.splits)
next
  fix r s'
  assume a: "runner_passive s = 0 \<and> \<not> has_expired now (sync_full_schedule cfg) (marker s)"
    and b: "sync_inventory cfg rpc nsxv3 now s = Some (r, s')"
  from a b obtain s1 where
    "sync_inventory_shallow cfg rpc nsxv3 (acquire AGENT_SYNCHRONIZATION_LOCK s) = Some (r, s1)"
    and s': "s' = release AGENT_SYNCHRONIZATION_LOCK s1"
    by (auto simp: sync_inventory_def sync_inventory_locked_def split: option.splits)
  from shallow_keeps_marker[OF this(1)] s' show "marker s' = marker s"
    by simp
qed




theorem sync_inventory_gate_witness:
  "sync_inventory example_config (example_rpc example_query) example_store_facada 5000
     (example_agent\<lparr>runner := [(LOW, {''C''}, Sync_port_orphaned)]\<rparr>)
     = Some (Inr (), release AGENT_SYNCHRONIZATION_LOCK (acquire AGENT_SYNCHRONIZATION_LOCK
         (example_agent\<lparr>runner := [(LOW, {''C''}, Sync_port_orphaned)]\<rparr>))) \<and>
   (case sync_inventory example_config (example_rpc example_query) example_store_facada
           5000 example_agent of
      Some (Inr u, s') \<Rightarrow> marker s' = Some 5000 \<and> length (runner s') = 3
    | _ \<Rightarrow> False) \<and>
   (case sync_inventory example_config (example_rpc example_query) example_store_facada
           5000 (example_agent\<lparr>marker := Some 4000\<rparr>) of
      Some (Inr u, s') \<Rightarrow> marker s' = Some 4000 \<and> length (runner s') = 7
    | _ \<Rightarrow> False)"
proof -
  let ?busy = "example_agent\<lparr>runner := [(LOW, {''C''}, Sync_port_orphaned)]\<rparr>"
  let ?fresh = "example_agent\<lparr>marker := Some 4000\<rparr>"
  let ?L = AGENT_SYNCHRONIZATION_LOCK
  have busy: "0 < runner_passive ?busy"
    by (simp add: runner_passive_def example_agent_def)
  have expired: "runner_passive example_agent = 0 \<and>
      has_expired 5000 (sync_full_schedule example_config) (marker example_agent)"
    by (simp add: runner_passive_def has_expired_def example_agent_def)
  have fresh: "runner_passive ?fresh = 0 \<and>
      \<not> has_expired 5000 (sync_full_schedule example_config) (marker ?fresh)"
    by (simp add: runner_passive_def has_expired_def example_agent_def example_config_def)
  note g1 = sync_inventory_gate[where s = ?busy and cfg = example_config
      and rpc = "example_rpc example_query" and ?nsxv3.0 = example_store_facada
      and now = 5000, THEN conjunct1, rule_format, OF busy]
  note g2 = sync_inventory_gate[where s = example_agent and cfg = example_config
      and rpc = "example_rpc example_query" and ?nsxv3.0 = example_store_facada
      and now = 5000, THEN conjunct2, THEN conjunct1, rule_format,
      OF expired, THEN conjunct1, rule_format, OF example_full, THEN conjunct1]
  note g3 = sync_inventory_gate[where s = ?fresh and cfg = example_config
      and rpc = "example_rpc example_query" and ?nsxv3.0 = example_store_facada
      and now = 5000, THEN conjunct2, THEN conjunct2, rule_format,
      OF fresh, THEN conjunct1]
  show ?thesis
    unfolding g2 g3 example_shallow
    using g1 by (simp add: timestamp_update_def release_def acquire_def example_agent_def)
qed

section \<open>The polling entry point\<close>




section \<open>QoS policy removal and port updates\<close>

lemma delete_policy_nsx: "nsx (snd (delete_policy policy s)) = nsx s"
  by (simp add: delete_policy_def or_raise_def with_lock_def split: sum.splits)

lemma delete_policy_marker: "marker (snd (delete_policy policy s)) = marker s"
  by (simp add: delete_policy_def or_raise_def with_lock_def split: sum.splits)

text \<open>
  C9. \<open>delete_policy\<close> leaves the target store and its marker as they are; given a
  policy with a name and an identifier it takes and releases the lock of that identifier
  and does nothing else. So \<open>sync_qos_orphaned\<close> leaves the target store unchanged
  for every identifier, and for a string identifier all it does is take and release that
  lock.
\<close>

theorem delete_policy_leaves_target_store:
  "nsx (snd (delete_policy policy s)) = nsx s \<and>
   marker (snd (delete_policy policy s)) = marker s \<and>
   (\<forall>name policy_id.
      getitem policy ''name'' = Inr name \<and> getitem policy ''id'' = Inr policy_id \<longrightarrow>
      delete_policy policy s = (Inr (), release policy_id (acquire policy_id s))) \<and>
   nsx (snd (sync_qos_orphaned qos_id s)) = nsx s \<and>
   marker (snd (sync_qos_orphaned qos_id s)) = marker s \<and>
   (\<forall>q. qos_id = PStr q \<longrightarrow>
      sync_qos_orphaned qos_id s = (Inr (), release qos_id (acquire qos_id s)))"
proof (intro conjI allI impI)
  show "nsx (snd (delete_policy policy s)) = nsx s"
    by (rule delete_policy_nsx)
  show "marker (snd (delete_policy policy s)) = marker s"
    by (rule delete_policy_marker)
  show "nsx (snd (sync_qos_orphaned qos_id s)) = nsx s"
    by (simp add: sync_qos_orphaned_def delete_policy_nsx split: pyval.splits)
  show "marker (snd (sync_qos_orphaned qos_id s)) = marker s"
    by (simp add: sync_qos_orphaned_def delete_policy_marker split: pyval.splits)
next
  fix name policy_id
  assume "getitem policy ''name'' = Inr name \<and> getitem policy ''id'' = Inr policy_id"
  then show "delete_policy policy s = (Inr (), release policy_id (acquire policy_id s))"
    by (simp add: delete_policy_def or_raise_def with_lock_def)
next
  fix q
  assume "qos_id = PStr q"
  then show "sync_qos_orphaned qos_id s = (Inr (), release qos_id (acquire qos_id s))"
    by (simp add: sync_qos_orphaned_def delete_policy_def or_raise_def with_lock_def
        getitem_def DAList.lookup_update)
qed

theorem delete_policy_leaves_target_store_witness:
  "sync_qos_orphaned (PStr ''qos-1'') example_agent =
     (Inr (), example_agent\<lparr>lock_log := [Acquire (PStr ''qos-1''), Release (PStr ''qos-1'')]\<rparr>) \<and>
   delete_policy
     (DAList.update ''name'' (PStr ''gold'') (DAList.update ''id'' (PStr ''qos-1'') DAList.empty))
     example_agent =
     (Inr (), example_agent\<lparr>lock_log := [Acquire (PStr ''qos-1''), Release (PStr ''qos-1'')]\<rparr>)"
proof -
  have k: "getitem (DAList.update ''name'' (PStr ''gold'')
             (DAList.update ''id'' (PStr ''qos-1'') DAList.empty)) ''name'' = Inr (PStr ''gold'') \<and>
           getitem (DAList.update ''name'' (PStr ''gold'')
             (DAList.update ''id'' (PStr ''qos-1'') DAList.empty)) ''id'' = Inr (PStr ''qos-1'')"
    by (simp add: getitem_def DAList.lookup_update)
  note t = delete_policy_leaves_target_store[where qos_id = "PStr ''qos-1''" and s = example_agent
      and policy = "DAList.update ''name'' (PStr ''gold'')
             (DAList.update ''id'' (PStr ''qos-1'') DAList.empty)"]
  from t have "sync_qos_orphaned (PStr ''qos-1'') example_agent =
      (Inr (), release (PStr ''qos-1'') (acquire (PStr ''qos-1'') example_agent))"
    by simp
  moreover from t k have "delete_policy
     (DAList.update ''name'' (PStr ''gold'') (DAList.update ''id'' (PStr ''qos-1'') DAList.empty))
     example_agent = (Inr (), release (PStr ''qos-1'') (acquire (PStr ''qos-1'') example_agent))"
    by blast
  ultimately show ?thesis
    by (simp add: release_def acquire_def example_agent_def)
qed

text \<open>
  C10. \<open>port_update\<close> returns with the state untouched (no target-store call, no lock,
  \<^verbatim>\<open>updated_devices\<close> as before) when the port's \<^verbatim>\<open>vnic_type\<close> is not
  \<^verbatim>\<open>VNIC_NORMAL\<close>, or its \<^verbatim>\<open>vif_type\<close> is not \<^verbatim>\<open>VIF_TYPE_OVS\<close>, or it carries a
  \<^verbatim>\<open>binding:host_id\<close> that differs from the configured host.
\<close>

theorem port_update_skips:
  assumes "get_or_none port VNIC_TYPE \<noteq> VNIC_NORMAL \<or>
           get_or_none port VIF_TYPE \<noteq> VIF_TYPE_OVS \<or>
           (contains port ''binding:host_id'' \<and> get_or_none port ''binding:host_id'' \<noteq> host cfg)"
  shows "port_update cfg nsxv3 port s = (Inr (), s)"
  using assms by (auto simp: port_update_def Let_def)

theorem port_update_skips_witness:
  "port_update example_config (example_facada example_target)
     (example_port (PStr ''direct'') (PStr ''ovs'') (PStr ''node-1'')) example_agent
     = (Inr (), example_agent) \<and>
   port_update example_config (example_facada example_target)
     (example_port (PStr ''normal'') (PStr ''bridge'') (PStr ''node-1'')) example_agent
     = (Inr (), example_agent) \<and>
   port_update example_config (example_facada example_target)
     (example_port (PStr ''normal'') (PStr ''ovs'') (PStr ''node-2'')) example_agent
     = (Inr (), example_agent)"
proof -
  have a: "get_or_none (example_port (PStr ''direct'') (PStr ''ovs'') (PStr ''node-1'')) VNIC_TYPE
             \<noteq> VNIC_NORMAL"
    by (simp add: example_port_def get_or_none_def DAList.lookup_update VNIC_TYPE_def VIF_TYPE_def
        VNIC_NORMAL_def)
  have b: "get_or_none (example_port (PStr ''normal'') (PStr ''bridge'') (PStr ''node-1'')) VIF_TYPE
             \<noteq> VIF_TYPE_OVS"
    by (simp add: example_port_def get_or_none_def DAList.lookup_update VNIC_TYPE_def VIF_TYPE_def
        VIF_TYPE_OVS_def)
  have c: "contains (example_port (PStr ''normal'') (PStr ''ovs'') (PStr ''node-2''))
             ''binding:host_id'' \<and>
           get_or_none (example_port (PStr ''normal'') (PStr ''ovs'') (PStr ''node-2''))
             ''binding:host_id'' \<noteq> host example_config"
    by (simp add: example_port_def get_or_none_def contains_def DAList.lookup_update
        example_config_def)
  show ?thesis
    by (intro conjI)
       (rule port_update_skips[OF disjI1, OF a],
        rule port_update_skips[OF disjI2, OF disjI1, OF b],
        rule port_update_skips[OF disjI2, OF disjI2, OF c])
qed

section \<open>Security-group rule reconciliation\<close>

lemma copy_attrs_lookup:
  "copy_attrs rule ks fwr = Inr fwr' \<Longrightarrow>
   DAList.lookup fwr' k = (if k \<in> set ks then DAList.lookup rule k else DAList.lookup fwr k)"
proof (induction ks arbitrary: fwr)
  case Nil
  then show ?case by simp
next
  case (Cons key ks)
  from Cons.prems obtain v where v: "DAList.lookup rule key = Some v"
    and rest: "copy_attrs rule ks (DAList.update key v fwr) = Inr fwr'"
    by (auto simp: getitem_def split: option.splits sum.splits)
  from Cons.IH[OF rest] v show ?case
    by (auto simp: DAList.lookup_update)
qed

lemma project_rule_fields:
  assumes "project_rule ipset nsg revs_ips rule = Inr (name, fwr)"
  shows "getitem rule ''id'' = Inr name"
    and "DAList.lookup fwr ''id'' = Some name"
    and "\<exists>remote_group_id. getitem rule ''remote_group_id'' = Inr remote_group_id \<and>
           DAList.lookup fwr ''remote_group_id'' =
             Some (case DAList.lookup revs_ips remote_group_id of
                     Some ref \<Rightarrow> ref | None \<Rightarrow> remote_group_id)"
proof -
  from assms obtain rgid fwr0 where
    name: "getitem rule ''id'' = Inr name"
    and rgid: "getitem rule ''remote_group_id'' = Inr rgid"
    and copy: "copy_attrs rule attrs DAList.empty = Inr fwr0"
    and fwr: "fwr = (case DAList.lookup revs_ips rgid of
                Some ref \<Rightarrow> DAList.update ''remote_group_id'' ref
                  (DAList.update ''apply_to'' (obj_id nsg)
                    (DAList.update ''local_group_id'' (obj_id ipset) fwr0))
              | None \<Rightarrow> DAList.update ''apply_to'' (obj_id nsg)
                    (DAList.update ''local_group_id'' (obj_id ipset) fwr0))"
    by (auto simp: project_rule_def Let_def split: sum.splits if_splits)
  have id0: "DAList.lookup fwr0 ''id'' = DAList.lookup rule ''id''"
    and rg0: "DAList.lookup fwr0 ''remote_group_id'' = DAList.lookup rule ''remote_group_id''"
    using copy_attrs_lookup[OF copy] by (simp_all add: attrs_def)
  show "getitem rule ''id'' = Inr name" by (rule name)
  from name id0 fwr show "DAList.lookup fwr ''id'' = Some name"
    by (auto simp: getitem_def DAList.lookup_update split: option.splits)
  from rgid rg0 fwr
  have "DAList.lookup fwr ''remote_group_id'' =
          Some (case DAList.lookup revs_ips rgid of Some ref \<Rightarrow> ref | None \<Rightarrow> rgid)"
    by (auto simp: getitem_def DAList.lookup_update split: option.splits)
  with rgid show "\<exists>remote_group_id. getitem rule ''remote_group_id'' = Inr remote_group_id \<and>
           DAList.lookup fwr ''remote_group_id'' =
             Some (case DAList.lookup revs_ips remote_group_id of
                     Some ref \<Rightarrow> ref | None \<Rightarrow> remote_group_id)"
    by blast
qed

text \<open>
One turn of the loop, as a case analysis.
\<close>

lemma add_rules_loop_step:
  assumes "add_rules_loop nsxv3 ipset nsg revs_ips meta_fwr (rule # rest) (add_rules, revs_fwr)
             = Inr out"
  obtains (skip) name fwr where
      "project_rule ipset nsg revs_ips rule = Inr (name, fwr)"
      "contains revs_fwr name" "\<not> is_disabled meta_fwr name"
      "add_rules_loop nsxv3 ipset nsg revs_ips meta_fwr rest
         (add_rules, DAList.delete name revs_fwr) = Inr out"
    | (reject) name fwr where
      "project_rule ipset nsg revs_ips rule = Inr (name, fwr)"
      "contains revs_fwr name \<longrightarrow> is_disabled meta_fwr name"
      "get_security_group_rule_spec nsxv3 fwr = Inr None"
      "add_rules_loop nsxv3 ipset nsg revs_ips meta_fwr rest (add_rules, revs_fwr) = Inr out"
    | (add) name fwr fwr_spec where
      "project_rule ipset nsg revs_ips rule = Inr (name, fwr)"
      "contains revs_fwr name \<longrightarrow> is_disabled meta_fwr name"
      "get_security_group_rule_spec nsxv3 fwr = Inr (Some fwr_spec)"
      "add_rules_loop nsxv3 ipset nsg revs_ips meta_fwr rest
         (add_rules @ [fwr_spec], revs_fwr) = Inr out"
proof -
  from assms obtain name fwr b where
    p: "project_rule ipset nsg revs_ips rule = Inr (name, fwr)"
    and c: "already_correct meta_fwr revs_fwr name = Inr b"
    by (auto split: sum.splits)
  show thesis
  proof (cases b)
    case True
    with c have "contains revs_fwr name" "\<not> is_disabled meta_fwr name"
      by (auto simp: already_correct_def is_disabled_def split: if_splits option.splits)
    moreover from assms p c True
    have "add_rules_loop nsxv3 ipset nsg revs_ips meta_fwr rest
            (add_rules, DAList.delete name revs_fwr) = Inr out"
      by simp
    ultimately show thesis using p by (rule skip[rotated])
  next
    case False
    with c have d: "contains revs_fwr name \<longrightarrow> is_disabled meta_fwr name"
      by (auto simp: already_correct_def is_disabled_def split: if_splits option.splits)
    from assms p c False obtain sp where
      sp: "get_security_group_rule_spec nsxv3 fwr = Inr sp"
      by (auto split: sum.splits)
    show thesis
    proof (cases sp)
      case None
      with assms p c False sp
      have "add_rules_loop nsxv3 ipset nsg revs_ips meta_fwr rest (add_rules, revs_fwr) = Inr out"
        by simp
      with p d sp None show thesis by (auto intro: reject)
    next
      case (Some fwr_spec)
      with assms p c False sp
      have "add_rules_loop nsxv3 ipset nsg revs_ips meta_fwr rest
              (add_rules @ [fwr_spec], revs_fwr) = Inr out"
        by simp
      with p d sp Some show thesis by (auto intro: add)
    qed
  qed
qed

lemma rule_ids_Nil [simp]: "rule_ids [] = {}"
  by (simp add: rule_ids_def)

lemma rule_ids_Cons:
  "getitem rule ''id'' = Inr name \<Longrightarrow> rule_ids (rule # rest) = insert name (rule_ids rest)"
  by (auto simp: rule_ids_def)

text \<open>
  What is left of \<^verbatim>\<open>revs_fwr\<close> after the loop: the entries whose name is not the
  identifier of an authoritative rule, and the disabled ones.
\<close>

lemma add_rules_loop_kept:
  "add_rules_loop nsxv3 ipset nsg revs_ips meta_fwr rules (add_rules, revs_fwr)
     = Inr (add_rules', revs_fwr') \<Longrightarrow>
   items revs_fwr' =
     filter (\<lambda>(k, v). \<not> (k \<in> rule_ids rules \<and> \<not> is_disabled meta_fwr k)) (items revs_fwr)"
proof (induction rules arbitrary: add_rules revs_fwr)
  case Nil
  then show ?case by simp
next
  case (Cons rule rest)
  from Cons.prems show ?case
  proof (cases rule: add_rules_loop_step)
    case (skip name fwr)
    note ids = rule_ids_Cons[OF project_rule_fields(1)[OF skip(1)], of rest]
    from Cons.IH[OF skip(4)] skip(3) show ?thesis
      by (auto simp: ids items_delete intro!: filter_cong)
  next
    case (reject name fwr)
    note ids = rule_ids_Cons[OF project_rule_fields(1)[OF reject(1)], of rest]
    from Cons.IH[OF reject(4)] reject(2) show ?thesis
      by (auto simp: ids intro!: filter_cong dest: in_items_contains)
  next
    case (add name fwr fwr_spec)
    note ids = rule_ids_Cons[OF project_rule_fields(1)[OF add(1)], of rest]
    from Cons.IH[OF add(4)] add(2) show ?thesis
      by (auto simp: ids intro!: filter_cong dest: in_items_contains)
  qed
qed

lemma add_rules_loop_mono:
  "add_rules_loop nsxv3 ipset nsg revs_ips meta_fwr rules (add_rules, revs_fwr)
     = Inr (add_rules', revs_fwr') \<Longrightarrow>
   set add_rules \<subseteq> set add_rules'"
proof (induction rules arbitrary: add_rules revs_fwr)
  case Nil
  then show ?case by simp
next
  case (Cons rule rest)
  from Cons.prems show ?case
  proof (cases rule: add_rules_loop_step)
    case (skip name fwr)
    from Cons.IH[OF skip(4)] show ?thesis .
  next
    case (reject name fwr)
    from Cons.IH[OF reject(4)] show ?thesis .
  next
    case (add name fwr fwr_spec)
    from Cons.IH[OF add(4)] show ?thesis by simp
  qed
qed

lemma add_rules_loop_projects:
  "add_rules_loop nsxv3 ipset nsg revs_ips meta_fwr rules (add_rules, revs_fwr)
     = Inr (add_rules', revs_fwr') \<Longrightarrow>
   rule \<in> set rules \<Longrightarrow>
   \<exists>name fwr. project_rule ipset nsg revs_ips rule = Inr (name, fwr)"
proof (induction rules arbitrary: add_rules revs_fwr)
  case Nil
  then show ?case by simp
next
  case (Cons r rest)
  from Cons.prems(1) show ?case
  proof (cases rule: add_rules_loop_step)
    case (skip name fwr)
    with Cons.IH[OF skip(4)] Cons.prems(2) show ?thesis by auto
  next
    case (reject name fwr)
    with Cons.IH[OF reject(4)] Cons.prems(2) show ?thesis by auto
  next
    case (add name fwr fwr_spec)
    with Cons.IH[OF add(4)] Cons.prems(2) show ?thesis by auto
  qed
qed

lemma add_rules_loop_provenance:
  "add_rules_loop nsxv3 ipset nsg revs_ips meta_fwr rules (add_rules, revs_fwr)
     = Inr (add_rules', revs_fwr') \<Longrightarrow>
   spec \<in> set add_rules' \<Longrightarrow>
   spec \<in> set add_rules \<or>
   (\<exists>rule \<in> set rules. \<exists>name. built_from nsxv3 ipset nsg revs_ips rule name spec)"
proof (induction rules arbitrary: add_rules revs_fwr)
  case Nil
  then show ?case by simp
next
  case (Cons r rest)
  from Cons.prems(1) show ?case
  proof (cases rule: add_rules_loop_step)
    case (skip name fwr)
    from Cons.IH[OF skip(4) Cons.prems(2)] show ?thesis by auto
  next
    case (reject name fwr)
    from Cons.IH[OF reject(4) Cons.prems(2)] show ?thesis by auto
  next
    case (add name fwr fwr_spec)
    from Cons.IH[OF add(4) Cons.prems(2)] add(1,3) show ?thesis
      by (auto simp: built_from_def)
  qed
qed

lemma add_rules_loop_disabled:
  "add_rules_loop nsxv3 ipset nsg revs_ips meta_fwr rules (add_rules, revs_fwr)
     = Inr (add_rules', revs_fwr') \<Longrightarrow>
   rule \<in> set rules \<Longrightarrow> is_disabled meta_fwr name \<Longrightarrow>
   built_from nsxv3 ipset nsg revs_ips rule name spec \<Longrightarrow>
   spec \<in> set add_rules'"
proof (induction rules arbitrary: add_rules revs_fwr)
  case Nil
  then show ?case by simp
next
  case (Cons r rest)
  from Cons.prems(1) show ?case
  proof (cases rule: add_rules_loop_step)
    case (skip name' fwr)
    with Cons.prems(2,3,4) have "rule \<in> set rest"
      by (auto simp: built_from_def)
    from Cons.IH[OF skip(4) this Cons.prems(3,4)] show ?thesis .
  next
    case (reject name' fwr)
    with Cons.prems(2,3,4) have "rule \<in> set rest"
      by (auto simp: built_from_def)
    from Cons.IH[OF reject(4) this Cons.prems(3,4)] show ?thesis .
  next
    case (add name' fwr fwr_spec)
    show ?thesis
    proof (cases "rule = r")
      case True
      with add(1,3) Cons.prems(4) have "spec = fwr_spec"
        by (auto simp: built_from_def)
      with add_rules_loop_mono[OF add(4)] show ?thesis by auto
    next
      case False
      with Cons.prems(2) have "rule \<in> set rest" by simp
      from Cons.IH[OF add(4) this Cons.prems(3,4)] show ?thesis .
    qed
  qed
qed

lemma add_rules_loop_others:
  assumes "add_rules_loop nsxv3 ipset nsg revs_ips meta_fwr rules (add_rules, revs_fwr)
             = Inr (add_rules', revs_fwr')"
    and "R \<notin> rule_ids rules"
    and "spec \<in> set add_rules'"
  shows "spec \<in> set add_rules \<or>
         (\<exists>rule \<in> set rules. \<exists>name. name \<noteq> R \<and> built_from nsxv3 ipset nsg revs_ips rule name spec)"
proof -
  from add_rules_loop_provenance[OF assms(1,3)] show ?thesis
  proof
    assume "spec \<in> set add_rules"
    then show ?thesis ..
  next
    assume "\<exists>rule \<in> set rules. \<exists>name. built_from nsxv3 ipset nsg revs_ips rule name spec"
    then obtain rule name where r: "rule \<in> set rules"
      and b: "built_from nsxv3 ipset nsg revs_ips rule name spec"
      by blast
    from b have "getitem rule ''id'' = Inr name"
      by (auto simp: built_from_def dest: project_rule_fields(1))
    with r have "name \<in> rule_ids rules"
      by (auto simp: rule_ids_def)
    with assms(2) have "name \<noteq> R" by auto
    with r b show ?thesis by blast
  qed
qed

lemma add_rules_loop_enabled:
  "add_rules_loop nsxv3 ipset nsg revs_ips meta_fwr rules (add_rules, revs_fwr)
     = Inr (add_rules', revs_fwr') \<Longrightarrow>
   contains revs_fwr R \<Longrightarrow> \<not> is_disabled meta_fwr R \<Longrightarrow>
   length (filter (\<lambda>r. getitem r ''id'' = Inr R) rules) = 1 \<Longrightarrow>
   spec \<in> set add_rules' \<Longrightarrow>
   spec \<in> set add_rules \<or>
   (\<exists>rule \<in> set rules. \<exists>name. name \<noteq> R \<and> built_from nsxv3 ipset nsg revs_ips rule name spec)"
proof (induction rules arbitrary: add_rules revs_fwr)
  case Nil
  then show ?case by simp
next
  case (Cons r rest)
  from Cons.prems(1) show ?case
  proof (cases rule: add_rules_loop_step)
    case (skip name fwr)
    note rid = project_rule_fields(1)[OF skip(1)]
    show ?thesis
    proof (cases "name = R")
      case True
      with rid Cons.prems(4) have "filter (\<lambda>r. getitem r ''id'' = Inr R) rest = []"
        by simp
      then have "R \<notin> rule_ids rest"
        by (auto simp: rule_ids_def filter_empty_conv)
      from add_rules_loop_others[OF skip(4) this Cons.prems(5)] show ?thesis by auto
    next
      case False
      with rid Cons.prems(4) have one: "length (filter (\<lambda>r. getitem r ''id'' = Inr R) rest) = 1"
        by simp
      from False Cons.prems(2) have "contains (DAList.delete name revs_fwr) R"
        by (simp add: contains_def)
      from Cons.IH[OF skip(4) this Cons.prems(3) one Cons.prems(5)] show ?thesis by auto
    qed
  next
    case (reject name fwr)
    note rid = project_rule_fields(1)[OF reject(1)]
    from reject(2) Cons.prems(2,3) have "name \<noteq> R" by auto
    with rid Cons.prems(4) have one: "length (filter (\<lambda>r. getitem r ''id'' = Inr R) rest) = 1"
      by simp
    from Cons.IH[OF reject(4) Cons.prems(2,3) one Cons.prems(5)] show ?thesis by auto
  next
    case (add name fwr fwr_spec)
    note rid = project_rule_fields(1)[OF add(1)]
    from add(2) Cons.prems(2,3) have ne: "name \<noteq> R" by auto
    with rid Cons.prems(4) have one: "length (filter (\<lambda>r. getitem r ''id'' = Inr R) rest) = 1"
      by simp
    from add(1,3) have "built_from nsxv3 ipset nsg revs_ips r name fwr_spec"
      by (auto simp: built_from_def)
    with Cons.IH[OF add(4) Cons.prems(2,3) one Cons.prems(5)] ne show ?thesis by auto
  qed
qed

text \<open>
  The handler passes the two lists of \<open>rule_lists\<close> to
  \<^verbatim>\<open>update_security_group_rules\<close>, inside the lock of the security group.
\<close>

lemma security_group_rule_updated_passes_lists:
  assumes "get_or_create_security_group nsxv3 sg_id (nsx s) = (Inr (ipset, nsg, sec), store)"
    and "nsx_get_revisions nsxv3 IPSet None store = Inr (revs1, revs_ips, meta1)"
    and "nsx_get_revisions nsxv3 FirewallRule (Some (''section_id'', obj_id sec)) store
           = Inr (revs2, revs_fwr, meta_fwr)"
    and "get_rules_for_security_groups_id rpc sg_id = Inr neutron_rules"
    and "rule_lists nsxv3 ipset nsg revs_ips revs_fwr meta_fwr neutron_rules
           = Inr (add_rules, del_rules)"
    and "get_security_group_revision rpc sg_id = Inr (sg_id', revision)"
    and "update_security_group_rules nsxv3 sg_id' revision add_rules del_rules store = (r, store')"
  shows "security_group_rule_updated rpc nsxv3 sg_id s =
           (r, release (PStr sg_id) ((acquire (PStr sg_id) s)\<lparr>nsx := store'\<rparr>))"
  using assms
  by (simp add: security_group_rule_updated_def with_lock_def or_raise_def Let_def acquire_def)

lemma example_project:
  "hashable rg \<Longrightarrow>
   \<exists>fwr. project_rule example_ipset example_nsgroup example_revs_ips (example_rule rid rg)
           = Inr (PStr rid, fwr)"
  by (simp add: project_rule_def example_rule_def attrs_def Let_def dict_eval
      split: option.splits)

lemma example_rule_id: "getitem (example_rule rid rg) ''id'' = Inr (PStr rid)"
  by (simp add: example_rule_def dict_eval)

lemma example_rule_remote: "getitem (example_rule rid rg) ''remote_group_id'' = Inr rg"
  by (simp add: example_rule_def dict_eval)

lemma example_disabled_flag: "is_disabled (example_meta_fwr d) (PStr ''R1'') = (d \<noteq> 0)"
  by (simp add: is_disabled_def example_meta_fwr_def dict_eval)

lemma example_existing: "DAList.lookup example_revs_fwr (PStr ''R1'') = Some (PStr ''nsx-rule-1'')"
  by (simp add: example_revs_fwr_def)

lemma example_rejected:
  "rule_lists rejecting_facada example_ipset example_nsgroup example_revs_ips
     example_revs_fwr (example_meta_fwr 1) [example_rule ''R1'' PNone]
   = Inr ([], [PStr ''nsx-rule-1''])"
proof -
  from example_project[where rg = PNone, simplified] obtain fwr where
    p: "project_rule example_ipset example_nsgroup example_revs_ips (example_rule ''R1'' PNone)
          = Inr (PStr ''R1'', fwr)"
    by blast
  show ?thesis
    by (simp add: rule_lists_def p already_correct_def example_revs_fwr_def example_meta_fwr_def
        rejecting_facada_def dict_eval)
qed

lemma example_enabled:
  "rule_lists accepting_facada example_ipset example_nsgroup example_revs_ips
     example_revs_fwr (example_meta_fwr 0) [example_rule ''R1'' PNone]
   = Inr ([], [])"
proof -
  from example_project[where rg = PNone, simplified] obtain fwr where
    p: "project_rule example_ipset example_nsgroup example_revs_ips (example_rule ''R1'' PNone)
          = Inr (PStr ''R1'', fwr)"
    by blast
  show ?thesis
    by (simp add: rule_lists_def p already_correct_def example_revs_fwr_def example_meta_fwr_def
        accepting_facada_def example_facada_def dict_eval)
qed

lemma example_disabled:
  "\<exists>fwr. rule_lists accepting_facada example_ipset example_nsgroup example_revs_ips
            example_revs_fwr (example_meta_fwr 1) [example_rule ''R1'' PNone]
          = Inr ([fwr], [PStr ''nsx-rule-1''])"
proof -
  from example_project[where rg = PNone, simplified] obtain fwr where
    p: "project_rule example_ipset example_nsgroup example_revs_ips (example_rule ''R1'' PNone)
          = Inr (PStr ''R1'', fwr)"
    by blast
  show ?thesis
    by (simp add: rule_lists_def p already_correct_def example_revs_fwr_def example_meta_fwr_def
        accepting_facada_def example_facada_def dict_eval)
qed

lemma example_duplicated:
  "\<exists>fwr. rule_lists accepting_facada example_ipset example_nsgroup example_revs_ips
            example_revs_fwr (example_meta_fwr 0)
            [example_rule ''R1'' PNone, example_rule ''R1'' PNone]
          = Inr ([fwr], []) \<and> DAList.lookup fwr ''id'' = Some (PStr ''R1'')"
proof -
  from example_project[where rg = PNone, simplified] obtain fwr where
    p: "project_rule example_ipset example_nsgroup example_revs_ips (example_rule ''R1'' PNone)
          = Inr (PStr ''R1'', fwr)"
    by blast
  from project_rule_fields(2)[OF p] show ?thesis
    by (simp add: rule_lists_def p already_correct_def example_revs_fwr_def example_meta_fwr_def
        accepting_facada_def example_facada_def dict_eval)
qed

lemma example_substituted:
  "\<exists>fwr2 fwr3.
     project_rule example_ipset example_nsgroup example_revs_ips
       (example_rule ''R2'' (PStr ''sg-2'')) = Inr (PStr ''R2'', fwr2) \<and>
     project_rule example_ipset example_nsgroup example_revs_ips
       (example_rule ''R3'' (PStr ''sg-3'')) = Inr (PStr ''R3'', fwr3) \<and>
     rule_lists accepting_facada example_ipset example_nsgroup example_revs_ips
       DAList.empty DAList.empty
       [example_rule ''R2'' (PStr ''sg-2''), example_rule ''R3'' (PStr ''sg-3'')]
     = Inr ([fwr2, fwr3], [])"
proof -
  from example_project[where rg = "PStr ''sg-2''", simplified] obtain fwr2 where
    p2: "project_rule example_ipset example_nsgroup example_revs_ips
           (example_rule ''R2'' (PStr ''sg-2'')) = Inr (PStr ''R2'', fwr2)"
    by blast
  from example_project[where rg = "PStr ''sg-3''", simplified] obtain fwr3 where
    p3: "project_rule example_ipset example_nsgroup example_revs_ips
           (example_rule ''R3'' (PStr ''sg-3'')) = Inr (PStr ''R3'', fwr3)"
    by blast
  show ?thesis
    by (simp add: rule_lists_def p2 p3 already_correct_def
        accepting_facada_def example_facada_def dict_eval)
qed

text \<open>
  C2, as the code has it. Let an existing target rule carry the identifier \<open>R\<close> of an
  authoritative rule, and let the lists be built. The delete list holds the values of
  the entries that are kept: those whose name no authoritative rule carries, and the
  disabled ones. If the existing rule is not disabled, its entry is not kept, and when
  exactly one authoritative rule carries \<open>R\<close>, every specification of the add list is
  built from a rule with another identifier. If the existing rule is disabled, its entry
  is kept, so the delete list holds it, and the projection of the authoritative rule
  carries \<open>R\<close>; the add list holds the specification built from that projection
  whenever \<^verbatim>\<open>get_security_group_rule_spec\<close> builds one.
\<close>

theorem rule_reconciliation:
  assumes lists: "rule_lists nsxv3 ipset nsg revs_ips revs_fwr meta_fwr neutron_rules
                    = Inr (add_rules, del_rules)"
    and existing: "DAList.lookup revs_fwr R = Some existing"
    and auth: "rule \<in> set neutron_rules" "getitem rule ''id'' = Inr R"
  shows "\<exists>kept.
      kept = filter (\<lambda>(k, v). \<not> (k \<in> rule_ids neutron_rules \<and> \<not> is_disabled meta_fwr k))
               (items revs_fwr) \<and>
      del_rules = map snd kept \<and>
      (\<not> is_disabled meta_fwr R \<longrightarrow>
         R \<notin> fst ` set kept \<and>
         (length (filter (\<lambda>r. getitem r ''id'' = Inr R) neutron_rules) = 1 \<longrightarrow>
            (\<forall>spec \<in> set add_rules. \<exists>other \<in> set neutron_rules. \<exists>name.
               name \<noteq> R \<and> built_from nsxv3 ipset nsg revs_ips other name spec))) \<and>
      (is_disabled meta_fwr R \<longrightarrow>
         (R, existing) \<in> set kept \<and> existing \<in> set del_rules \<and>
         (\<exists>fwr. project_rule ipset nsg revs_ips rule = Inr (R, fwr) \<and>
                DAList.lookup fwr ''id'' = Some R \<and>
                (\<forall>spec. get_security_group_rule_spec nsxv3 fwr = Inr (Some spec) \<longrightarrow>
                   spec \<in> set add_rules)))"
proof -
  let ?keep = "\<lambda>(k, v). \<not> (k \<in> rule_ids neutron_rules \<and> \<not> is_disabled meta_fwr k)"
  from lists obtain revs_fwr' where
    run: "add_rules_loop nsxv3 ipset nsg revs_ips meta_fwr neutron_rules ([], revs_fwr)
            = Inr (add_rules, revs_fwr')"
    and del: "del_rules = values_of revs_fwr'"
    by (auto simp: rule_lists_def split: sum.splits)
  note kept = add_rules_loop_kept[OF run]
  from del kept have del': "del_rules = map snd (filter ?keep (items revs_fwr))"
    by (simp add: values_of_items)
  from auth have R_id: "R \<in> rule_ids neutron_rules"
    by (auto simp: rule_ids_def)
  from existing have R_item: "(R, existing) \<in> set (items revs_fwr)"
    by (simp add: in_items_iff)
  have enabled: "R \<notin> fst ` set (filter ?keep (items revs_fwr))" if "\<not> is_disabled meta_fwr R"
    using that R_id by auto
  have unique: "\<exists>other \<in> set neutron_rules. \<exists>name.
                  name \<noteq> R \<and> built_from nsxv3 ipset nsg revs_ips other name spec"
    if "\<not> is_disabled meta_fwr R"
      and "length (filter (\<lambda>r. getitem r ''id'' = Inr R) neutron_rules) = 1"
      and "spec \<in> set add_rules" for spec
  proof -
    from existing have "contains revs_fwr R"
      by (simp add: contains_def)
    from add_rules_loop_enabled[OF run this that] show ?thesis by simp
  qed
  have disabled_kept: "(R, existing) \<in> set (filter ?keep (items revs_fwr))"
    if "is_disabled meta_fwr R"
    using that R_item by auto
  from add_rules_loop_projects[OF run auth(1)] obtain name fwr where
    "project_rule ipset nsg revs_ips rule = Inr (name, fwr)"
    by blast
  with project_rule_fields(1)[OF this] auth(2)
  have proj: "project_rule ipset nsg revs_ips rule = Inr (R, fwr)"
    by simp
  have recreated: "spec \<in> set add_rules"
    if "is_disabled meta_fwr R" and "get_security_group_rule_spec nsxv3 fwr = Inr (Some spec)"
    for spec
  proof -
    from proj that(2) have "built_from nsxv3 ipset nsg revs_ips rule R spec"
      by (auto simp: built_from_def)
    from add_rules_loop_disabled[OF run auth(1) that(1) this] show ?thesis .
  qed
  show ?thesis
  proof (intro exI conjI impI ballI allI)
    show "filter ?keep (items revs_fwr) = filter ?keep (items revs_fwr)" ..
    show "del_rules = map snd (filter ?keep (items revs_fwr))" by (rule del')
    show "R \<notin> fst ` set (filter ?keep (items revs_fwr))" if "\<not> is_disabled meta_fwr R"
      using that by (rule enabled)
    show "\<exists>other \<in> set neutron_rules. \<exists>name.
            name \<noteq> R \<and> built_from nsxv3 ipset nsg revs_ips other name spec"
      if "\<not> is_disabled meta_fwr R"
        and "length (filter (\<lambda>r. getitem r ''id'' = Inr R) neutron_rules) = 1"
        and "spec \<in> set add_rules" for spec
      using that by (rule unique)
    show "(R, existing) \<in> set (filter ?keep (items revs_fwr))" if "is_disabled meta_fwr R"
      using that by (rule disabled_kept)
    show "existing \<in> set del_rules" if "is_disabled meta_fwr R"
      using disabled_kept[OF that] del' by force
    show "project_rule ipset nsg revs_ips rule = Inr (R, fwr)" by (rule proj)
    show "DAList.lookup fwr ''id'' = Some R" by (rule project_rule_fields(2)[OF proj])
    show "spec \<in> set add_rules"
      if "is_disabled meta_fwr R" and "get_security_group_rule_spec nsxv3 fwr = Inr (Some spec)"
      for spec
      using that by (rule recreated)
  qed
qed

theorem rule_reconciliation_witness:
  "rule_lists accepting_facada example_ipset example_nsgroup example_revs_ips
     example_revs_fwr (example_meta_fwr 0) [example_rule ''R1'' PNone] = Inr ([], []) \<and>
   (\<exists>fwr. rule_lists accepting_facada example_ipset example_nsgroup example_revs_ips
            example_revs_fwr (example_meta_fwr 1) [example_rule ''R1'' PNone]
            = Inr ([fwr], [PStr ''nsx-rule-1'']) \<and>
          DAList.lookup fwr ''id'' = Some (PStr ''R1''))"
proof -
  have mem: "example_rule ''R1'' PNone \<in> set [example_rule ''R1'' PNone]"
    by simp
  from rule_reconciliation[OF example_enabled example_existing mem example_rule_id]
  have "\<exists>kept. ([]::pyval list) = map snd kept \<and> PStr ''R1'' \<notin> fst ` set kept"
    by (auto simp: example_disabled_flag)
  from example_disabled obtain fwr where
    d: "rule_lists accepting_facada example_ipset example_nsgroup example_revs_ips
            example_revs_fwr (example_meta_fwr 1) [example_rule ''R1'' PNone]
            = Inr ([fwr], [PStr ''nsx-rule-1''])"
    by blast
  from rule_reconciliation[OF d example_existing mem example_rule_id]
  obtain fwr' where "DAList.lookup fwr' ''id'' = Some (PStr ''R1'')"
    and "\<forall>spec. get_security_group_rule_spec accepting_facada fwr' = Inr (Some spec) \<longrightarrow>
           spec \<in> set [fwr]"
    by (auto simp: example_disabled_flag)
  then have "DAList.lookup fwr ''id'' = Some (PStr ''R1'')"
    by (simp add: accepting_facada_def example_facada_def)
  with d example_enabled show ?thesis
    by blast
qed

text \<open>
  C2 as it is stated fails twice. A disabled rule whose authoritative counterpart is
  given no specification (\<^verbatim>\<open>get_security_group_rule_spec\<close> returns \<^verbatim>\<open>None\<close>) is deleted
  and not recreated: the add list is empty. An enabled rule whose identifier two
  authoritative rules carry is skipped at the first and submitted at the second: the add
  list holds a specification with its identifier.
\<close>

theorem rule_reconciliation_counterexample:
  "rule_lists rejecting_facada example_ipset example_nsgroup example_revs_ips
     example_revs_fwr (example_meta_fwr 1) [example_rule ''R1'' PNone]
     = Inr ([], [PStr ''nsx-rule-1'']) \<and>
   (case rule_lists accepting_facada example_ipset example_nsgroup example_revs_ips
           example_revs_fwr (example_meta_fwr 0)
           [example_rule ''R1'' PNone, example_rule ''R1'' PNone] of
      Inr (add_rules, del_rules) \<Rightarrow>
        map (\<lambda>fwr_spec. DAList.lookup fwr_spec ''id'') add_rules = [Some (PStr ''R1'')] \<and>
        del_rules = []
    | Inl e \<Rightarrow> False)"
proof -
  from example_duplicated obtain fwr where
    "rule_lists accepting_facada example_ipset example_nsgroup example_revs_ips
            example_revs_fwr (example_meta_fwr 0)
            [example_rule ''R1'' PNone, example_rule ''R1'' PNone]
          = Inr ([fwr], [])"
    and "DAList.lookup fwr ''id'' = Some (PStr ''R1'')"
    by blast
  then show ?thesis
    by (simp add: example_rejected)
qed

text \<open>
  C5. When the lists are built, every authoritative rule has a projection, and every
  specification of the add list is built from the projection of an authoritative rule.
  In each projection the field \<^verbatim>\<open>remote_group_id\<close> is the reference that \<^verbatim>\<open>revs_ips\<close>
  holds for the rule's \<^verbatim>\<open>remote_group_id\<close>, if it holds one, and the rule's own
  \<^verbatim>\<open>remote_group_id\<close> otherwise.
\<close>

theorem remote_group_substitution:
  assumes "rule_lists nsxv3 ipset nsg revs_ips revs_fwr meta_fwr neutron_rules
             = Inr (add_rules, del_rules)"
  shows "(\<forall>rule \<in> set neutron_rules. \<exists>name fwr remote_group_id.
            project_rule ipset nsg revs_ips rule = Inr (name, fwr) \<and>
            getitem rule ''remote_group_id'' = Inr remote_group_id \<and>
            DAList.lookup fwr ''remote_group_id'' =
              Some (case DAList.lookup revs_ips remote_group_id of
                      Some ref \<Rightarrow> ref | None \<Rightarrow> remote_group_id)) \<and>
         (\<forall>spec \<in> set add_rules. \<exists>rule \<in> set neutron_rules. \<exists>name fwr remote_group_id.
            project_rule ipset nsg revs_ips rule = Inr (name, fwr) \<and>
            get_security_group_rule_spec nsxv3 fwr = Inr (Some spec) \<and>
            getitem rule ''remote_group_id'' = Inr remote_group_id \<and>
            DAList.lookup fwr ''remote_group_id'' =
              Some (case DAList.lookup revs_ips remote_group_id of
                      Some ref \<Rightarrow> ref | None \<Rightarrow> remote_group_id))"
proof (intro conjI ballI)
  from assms obtain revs_fwr' where
    run: "add_rules_loop nsxv3 ipset nsg revs_ips meta_fwr neutron_rules ([], revs_fwr)
            = Inr (add_rules, revs_fwr')"
    by (auto simp: rule_lists_def split: sum.splits)
  {
    fix rule
    assume "rule \<in> set neutron_rules"
    from add_rules_loop_projects[OF run this] obtain name fwr where
      p: "project_rule ipset nsg revs_ips rule = Inr (name, fwr)"
      by blast
    with project_rule_fields(3)[OF p]
    show "\<exists>name fwr remote_group_id.
            project_rule ipset nsg revs_ips rule = Inr (name, fwr) \<and>
            getitem rule ''remote_group_id'' = Inr remote_group_id \<and>
            DAList.lookup fwr ''remote_group_id'' =
              Some (case DAList.lookup revs_ips remote_group_id of
                      Some ref \<Rightarrow> ref | None \<Rightarrow> remote_group_id)"
      by blast
  }
  {
    fix spec
    assume "spec \<in> set add_rules"
    from add_rules_loop_provenance[OF run this] obtain rule name fwr where
      r: "rule \<in> set neutron_rules"
      and p: "project_rule ipset nsg revs_ips rule = Inr (name, fwr)"
      and s: "get_security_group_rule_spec nsxv3 fwr = Inr (Some spec)"
      by (auto simp: built_from_def)
    with project_rule_fields(3)[OF p]
    show "\<exists>rule \<in> set neutron_rules. \<exists>name fwr remote_group_id.
            project_rule ipset nsg revs_ips rule = Inr (name, fwr) \<and>
            get_security_group_rule_spec nsxv3 fwr = Inr (Some spec) \<and>
            getitem rule ''remote_group_id'' = Inr remote_group_id \<and>
            DAList.lookup fwr ''remote_group_id'' =
              Some (case DAList.lookup revs_ips remote_group_id of
                      Some ref \<Rightarrow> ref | None \<Rightarrow> remote_group_id)"
      by blast
  }
qed

theorem remote_group_substitution_witness:
  "\<exists>fwr2 fwr3.
     rule_lists accepting_facada example_ipset example_nsgroup example_revs_ips
       DAList.empty DAList.empty
       [example_rule ''R2'' (PStr ''sg-2''), example_rule ''R3'' (PStr ''sg-3'')]
     = Inr ([fwr2, fwr3], []) \<and>
     DAList.lookup fwr2 ''remote_group_id'' = Some (PStr ''ipset-2'') \<and>
     DAList.lookup fwr3 ''remote_group_id'' = Some (PStr ''sg-3'')"
proof -
  from example_substituted obtain fwr2 fwr3 where
    p2: "project_rule example_ipset example_nsgroup example_revs_ips
           (example_rule ''R2'' (PStr ''sg-2'')) = Inr (PStr ''R2'', fwr2)"
    and p3: "project_rule example_ipset example_nsgroup example_revs_ips
           (example_rule ''R3'' (PStr ''sg-3'')) = Inr (PStr ''R3'', fwr3)"
    and e: "rule_lists accepting_facada example_ipset example_nsgroup example_revs_ips
          DAList.empty DAList.empty
          [example_rule ''R2'' (PStr ''sg-2''), example_rule ''R3'' (PStr ''sg-3'')]
        = Inr ([fwr2, fwr3], [])"
    by blast
  note t = remote_group_substitution[OF e, THEN conjunct1, rule_format]
  from t[of "example_rule ''R2'' (PStr ''sg-2'')"]
  have "DAList.lookup fwr2 ''remote_group_id'' =
          Some (case DAList.lookup example_revs_ips (PStr ''sg-2'') of
                  Some ref \<Rightarrow> ref | None \<Rightarrow> PStr ''sg-2'')"
    by (auto simp: p2 example_rule_remote)
  then have r2: "DAList.lookup fwr2 ''remote_group_id'' = Some (PStr ''ipset-2'')"
    by (simp add: example_revs_ips_def)
  from t[of "example_rule ''R3'' (PStr ''sg-3'')"]
  have "DAList.lookup fwr3 ''remote_group_id'' =
          Some (case DAList.lookup example_revs_ips (PStr ''sg-3'') of
                  Some ref \<Rightarrow> ref | None \<Rightarrow> PStr ''sg-3'')"
    by (auto simp: p3 example_rule_remote)
  then have r3: "DAList.lookup fwr3 ''remote_group_id'' = Some (PStr ''sg-3'')"
    by (simp add: example_revs_ips_def)
  from e r2 r3 show ?thesis
    by blast
qed

end
